theory Spec2Isabelle
  imports Main
begin

section \<open>CropCare: history store, analysis flow and camera capture\<close>

text \<open>
  The application is a React front end. \<^verbatim>\<open>App\<close> owns the analysis flow and the
  history kept in the browser's local storage; \<^verbatim>\<open>ImageUpload\<close> owns the file input and
  the camera. Every handler is embedded as a function from the state it reads to the
  state it leaves, together with the calls it makes on its surroundings (alerts, the
  \<^verbatim>\<open>onImageSelected\<close> callback). Values the browser supplies (a fresh UUID, the
  clock, the reply of the analysis service, whether a promise resolves) are arguments.
\<close>

subsection \<open>JSON values and the stored history\<close>

text \<open>
  A JSON value. JavaScript numbers are kept abstract in \<open>'n\<close>: no handler computes
  with them.
\<close>

datatype 'n json =
    JNull
  | JBool bool
  | JNum 'n
  | JStr string
  | JArr "'n json list"
  | JObj "(string \<times> 'n json) list"

text \<open>
  The text held under the key \<^verbatim>\<open>cropcare_history\<close>, represented by what
  \<^verbatim>\<open>JSON.parse\<close> makes of it: the empty string (which is falsy, so it is never
  parsed), a text that \<^verbatim>\<open>JSON.parse\<close> rejects, or the serialisation
  \<^verbatim>\<open>JSON.stringify v\<close> of a value \<open>v\<close>, which parses back to \<open>v\<close>.
  \<^verbatim>\<open>localStorage.getItem\<close> yields \<^verbatim>\<open>null\<close> for a missing key: \<open>None\<close>.
\<close>

datatype 'n stored = EmptyText | Unparsable | Serialised "'n json"

type_synonym 'n storage = "'n stored option"

datatype exn = SyntaxError | TypeError | ClientFailure string

fun JSON_parse :: "'n stored \<Rightarrow> exn + 'n json" where
  "JSON_parse EmptyText = Inl SyntaxError"
| "JSON_parse Unparsable = Inl SyntaxError"
| "JSON_parse (Serialised v) = Inr v"

text \<open>The nested payload \<^verbatim>\<open>ScanResult['results']\<close> returned by the analysis client.\<close>

record 'n analysis =
  crop_name :: string
  disease_detected :: bool
  disease_name :: string
  confidence_percentage :: 'n
  danger_level :: 'n
  symptoms :: "string list"
  treatments :: "string list"
  prevention_tips :: "string list"
  disease_description :: string

definition analysis_json :: "'n analysis \<Rightarrow> 'n json" where
  "analysis_json r = JObj
     [(''crop_name'', JStr (crop_name r)),
      (''disease_detected'', JBool (disease_detected r)),
      (''disease_name'', JStr (disease_name r)),
      (''confidence_percentage'', JNum (confidence_percentage r)),
      (''danger_level'', JNum (danger_level r)),
      (''symptoms'', JArr (map JStr (symptoms r))),
      (''treatments'', JArr (map JStr (treatments r))),
      (''prevention_tips'', JArr (map JStr (prevention_tips r))),
      (''disease_description'', JStr (disease_description r))]"

text \<open>
  The object literal \<^verbatim>\<open>historyItem\<close> of \<^verbatim>\<open>saveToHistory\<close>, as the JSON object
  it is serialised to. \<open>uuid\<close> is \<^verbatim>\<open>crypto.randomUUID()\<close> and \<open>now\<close> is
  \<^verbatim>\<open>new Date().toLocaleString()\<close>.
\<close>

definition historyItem :: "string \<Rightarrow> string \<Rightarrow> string \<Rightarrow> 'n analysis \<Rightarrow> 'n json" where
  "historyItem uuid now imageBase64 r = JObj
     [(''id'', JStr uuid),
      (''date'', JStr now),
      (''imageUrl'', JStr imageBase64),
      (''cropName'', JStr (crop_name r)),
      (''diseaseDetected'', JBool (disease_detected r)),
      (''diseaseName'', JStr (disease_name r)),
      (''confidencePercentage'', JNum (confidence_percentage r)),
      (''results'', analysis_json r)]"

text \<open>
  \<^verbatim>\<open>saveToHistory\<close> (App, lines 68-84). \<^verbatim>\<open>savedHistory ? JSON.parse(savedHistory) : []\<close>
  parses every non-empty text; a parse error propagates. \<^verbatim>\<open>history.unshift\<close> exists
  on arrays only, so any other parsed value raises a \<^verbatim>\<open>TypeError\<close>. Nothing is
  written unless both steps pass. The write itself is taken to succeed: the storage
  quota is not modelled.
\<close>

definition saveToHistory ::
  "string \<Rightarrow> string \<Rightarrow> string \<Rightarrow> 'n analysis \<Rightarrow> 'n storage \<Rightarrow> exn + 'n storage" where
  "saveToHistory uuid now imageBase64 r localStorage =
     (let item = historyItem uuid now imageBase64 r;
          parsed = (case localStorage of
                      None \<Rightarrow> Inr (JArr [])
                    | Some EmptyText \<Rightarrow> Inr (JArr [])
                    | Some savedHistory \<Rightarrow> JSON_parse savedHistory)
      in case parsed of
           Inl e \<Rightarrow> Inl e
         | Inr (JArr history) \<Rightarrow> Inr (Some (Serialised (JArr (take 50 (item # history)))))
         | Inr _ \<Rightarrow> Inl TypeError)"

text \<open>One completed analysis: the UUID and the date drawn for it, the image, the payload.\<close>

type_synonym 'n completed = "string \<times> string \<times> string \<times> 'n analysis"

definition item_of :: "'n completed \<Rightarrow> 'n json" where
  "item_of c = (case c of (uuid, now, imageBase64, r) \<Rightarrow> historyItem uuid now imageBase64 r)"

text \<open>Appending a sequence of completed analyses, oldest first; the first exception ends it.\<close>

fun saveAll :: "'n completed list \<Rightarrow> 'n storage \<Rightarrow> exn + 'n storage" where
  "saveAll [] localStorage = Inr localStorage"
| "saveAll (c # cs) localStorage =
     (case c of (uuid, now, imageBase64, r) \<Rightarrow>
        (case saveToHistory uuid now imageBase64 r localStorage of
           Inl e \<Rightarrow> Inl e
         | Inr localStorage' \<Rightarrow> saveAll cs localStorage'))"

text \<open>
  The list \<^verbatim>\<open>saveToHistory\<close> takes as the prior history, when it takes one: the empty
  list for a missing key or an empty text, the elements of a stored array.
\<close>

fun prior_history :: "'n storage \<Rightarrow> 'n json list option" where
  "prior_history None = Some []"
| "prior_history (Some EmptyText) = Some []"
| "prior_history (Some (Serialised (JArr xs))) = Some xs"
| "prior_history (Some _) = None"

text \<open>
  Modelled from the spec: \<^verbatim>\<open>loadAll\<close> of the History view
  (\<^verbatim>\<open>components/History\<close>, which is not among the sources): "returns the persisted
  list, or an empty list if none exists or the stored value is not well-formed".
\<close>

fun loadAll :: "'n storage \<Rightarrow> 'n json list" where
  "loadAll (Some (Serialised (JArr xs))) = xs"
| "loadAll _ = []"

subsection \<open>The analysis flow of App\<close>

datatype view = Scan | History | Settings | Developer

record 'n Location =
  latitude :: 'n
  longitude :: 'n

record File =
  name :: string
  type :: string

text \<open>The argument of \<^verbatim>\<open>onImageSelected\<close>: \<^verbatim>\<open>string | File\<close>.\<close>

datatype imageData = DataUrl string | FileData File

text \<open>The \<^verbatim>\<open>useState\<close> variables of \<^verbatim>\<open>App\<close>.\<close>

record 'n app_state =
  analyzing :: bool
  results :: "'n analysis option"
  currentImage :: "string option"
  error :: "string option"
  currentView :: view
  location :: "'n Location option"
  showSplash :: bool

text \<open>
  What \<^verbatim>\<open>handleImageAnalysis\<close> draws from its surroundings: the translation function
  \<^verbatim>\<open>t\<close>, the analysis client \<^verbatim>\<open>analyzeImage\<close> (an outbound request that returns
  a payload or throws), the \<^verbatim>\<open>FileReader\<close> result for a file, and the UUID and date
  \<^verbatim>\<open>saveToHistory\<close> would draw.
\<close>

record 'n env =
  tr :: "string \<Rightarrow> string"
  analyzeImage :: "string \<Rightarrow> string \<Rightarrow> 'n Location option \<Rightarrow> exn + 'n analysis"
  readAsDataURL :: "File \<Rightarrow> string"
  randomUUID :: string
  toLocaleString :: string

text \<open>
  The page: the state of \<^verbatim>\<open>App\<close>, the stored history, and the requests sent to the
  analysis client so far (image, language, location).
\<close>

record 'n page =
  app :: "'n app_state"
  localStorage :: "'n storage"
  clientCalls :: "(string \<times> string \<times> 'n Location option) list"

text \<open>
  \<^verbatim>\<open>handleImageAnalysis\<close> (App, lines 86-115), run to completion: while it is
  pending \<^verbatim>\<open>analyzing\<close> holds, so neither \<^verbatim>\<open>ImageUpload\<close> nor the result view
  is rendered and no other handler writes the variables it writes. The
  \<^verbatim>\<open>try\<close> block covers both \<^verbatim>\<open>analyzeImage\<close> and \<^verbatim>\<open>saveToHistory\<close>: an
  exception of either reaches the \<^verbatim>\<open>catch\<close>, which sets the error message, and
  \<^verbatim>\<open>finally\<close> clears \<^verbatim>\<open>analyzing\<close>. \<^verbatim>\<open>setResults\<close> precedes
  \<^verbatim>\<open>saveToHistory\<close>, so the results stay set when saving raises.
\<close>

definition handleImageAnalysis :: "'n env \<Rightarrow> imageData \<Rightarrow> 'n page \<Rightarrow> 'n page" where
  "handleImageAnalysis e imageData p =
     (let a1 = (app p)\<lparr>analyzing := True, error := None\<rparr>;
          base64Image = (case imageData of FileData f \<Rightarrow> readAsDataURL e f | DataUrl s \<Rightarrow> s);
          a2 = a1\<lparr>currentImage := Some base64Image\<rparr>;
          request = (base64Image, tr e ''language'', location (app p));
          p1 = p\<lparr>clientCalls := clientCalls p @ [request]\<rparr>
      in case analyzeImage e base64Image (tr e ''language'') (location (app p)) of
           Inl err \<Rightarrow>
             p1\<lparr>app := a2\<lparr>error := Some (tr e ''error.analysis''), analyzing := False\<rparr>\<rparr>
         | Inr analysisResults \<Rightarrow>
             (let a3 = a2\<lparr>results := Some analysisResults\<rparr>
              in case saveToHistory (randomUUID e) (toLocaleString e) base64Image
                        analysisResults (localStorage p) of
                   Inl err \<Rightarrow>
                     p1\<lparr>app := a3\<lparr>error := Some (tr e ''error.analysis''), analyzing := False\<rparr>\<rparr>
                 | Inr localStorage' \<Rightarrow>
                     p1\<lparr>app := a3\<lparr>analyzing := False\<rparr>, localStorage := localStorage'\<rparr>))"



text \<open>
  \<^verbatim>\<open>onImageSelected\<close> is \<^verbatim>\<open>handleImageAnalysis\<close> (App, line 139); an alert
  reaches the user and leaves the page as it is.
\<close>

datatype call = Alert string | ImageSelected imageData

fun deliver :: "'n env \<Rightarrow> 'n page \<Rightarrow> call \<Rightarrow> 'n page" where
  "deliver e p (Alert m) = p"
| "deliver e p (ImageSelected d) = handleImageAnalysis e d p"

definition deliverAll :: "'n env \<Rightarrow> call list \<Rightarrow> 'n page \<Rightarrow> 'n page" where
  "deliverAll e outs p = foldl (deliver e) p outs"

subsection \<open>ImageUpload: streams, the video element, the component state\<close>

datatype facing = Environment | User

text \<open>
  A media track: whether it is still live (\<^verbatim>\<open>stop()\<close> ends it), the \<^verbatim>\<open>torch\<close>
  entry of \<^verbatim>\<open>getCapabilities()\<close> (\<open>None\<close> when the key is missing) and the
  \<^verbatim>\<open>torch\<close> entry of \<^verbatim>\<open>getSettings()\<close>. A stream is its list of tracks, all
  of them video tracks since only video is requested; streams are held in a store and
  named by their index there.
\<close>

record track =
  live :: bool
  torchCapability :: "bool option"
  torchSetting :: bool

type_synonym MediaStream = "track list"

type_synonym pixel = nat

type_synonym raster = "pixel list list"

text \<open>
  The \<^verbatim>\<open>video\<close> element: \<open>frame\<close> is the picture \<^verbatim>\<open>drawImage\<close> would read,
  \<open>videoHeight\<close> rows of \<open>videoWidth\<close> pixels; \<open>onloadedmetadata\<close> names the effect
  run that installed the handler.
\<close>

record video_element =
  readyState :: nat
  videoWidth :: nat
  videoHeight :: nat
  frame :: raster
  srcObject :: "nat option"
  onloadedmetadata :: "nat option"

definition HAVE_METADATA :: nat where
  "HAVE_METADATA = 1"

text \<open>The \<^verbatim>\<open>useState\<close> variables of \<^verbatim>\<open>ImageUpload\<close>.\<close>

record camera_state =
  showCamera :: bool
  stream :: "nat option"
  facingMode :: facing
  isCameraLoading :: bool
  isTorchSupported :: bool
  isTorchOn :: bool

definition initial_camera_state :: camera_state where
  "initial_camera_state =
     \<lparr>showCamera = False, stream = None, facingMode = Environment,
      isCameraLoading = False, isTorchSupported = False, isTorchOn = False\<rparr>"

definition startsWith :: "string \<Rightarrow> string \<Rightarrow> bool" where
  "startsWith s p = (take (length p) s = p)"

text \<open>\<^verbatim>\<open>handleFile\<close> (ImageUpload, lines 142-148): it touches no state.\<close>

definition handleFile :: "File \<Rightarrow> call list" where
  "handleFile f =
     (if startsWith (type f) ''image/'' then [ImageSelected (FileData f)]
      else [Alert ''Please upload an image file''])"

definition handleStartCameraClick :: "camera_state \<Rightarrow> camera_state" where
  "handleStartCameraClick s = s\<lparr>facingMode := Environment, showCamera := True\<rparr>"

definition stopCamera :: "camera_state \<Rightarrow> camera_state" where
  "stopCamera s = s\<lparr>showCamera := False\<rparr>"

definition toggleCamera :: "camera_state \<Rightarrow> camera_state" where
  "toggleCamera s =
     s\<lparr>facingMode := (if facingMode s = Environment then User else Environment)\<rparr>"

subsection \<open>The capture surface\<close>

text \<open>
  The 2D context's current transformation matrix, with integer entries: a point
  \<open>(x, y)\<close> of user space lands at \<open>(a x + c y + e, b x + d y + f)\<close>.
  \<^verbatim>\<open>translate\<close> and \<^verbatim>\<open>scale\<close> multiply the matrix from the right, as the canvas
  does.
\<close>

record ctm =
  ma :: int
  mb :: int
  mc :: int
  md :: int
  me :: int
  mf :: int

definition identity_ctm :: ctm where
  "identity_ctm = \<lparr>ma = 1, mb = 0, mc = 0, md = 1, me = 0, mf = 0\<rparr>"

definition translate :: "int \<Rightarrow> int \<Rightarrow> ctm \<Rightarrow> ctm" where
  "translate tx ty m =
     m\<lparr>me := ma m * tx + mc m * ty + me m, mf := mb m * tx + md m * ty + mf m\<rparr>"

definition scale :: "int \<Rightarrow> int \<Rightarrow> ctm \<Rightarrow> ctm" where
  "scale sx sy m = m\<lparr>ma := ma m * sx, mb := mb m * sx, mc := mc m * sy, md := md m * sy\<rparr>"

definition apply_ctm :: "ctm \<Rightarrow> int \<times> int \<Rightarrow> int \<times> int" where
  "apply_ctm m p = (case p of (x, y) \<Rightarrow> (ma m * x + mc m * y + me m, mb m * x + md m * y + mf m))"

text \<open>
  Source pixel \<open>(x, y)\<close> fills the unit square from \<open>(x, y)\<close> to \<open>(x + 1, y + 1)\<close>
  of user space (the picture is drawn at the origin in its own size). Under a matrix
  made of translations and reflections the square lands on one pixel of the surface:
  the one at the lesser corner.
\<close>

definition dest_pixel :: "ctm \<Rightarrow> nat \<times> nat \<Rightarrow> int \<times> int" where
  "dest_pixel m p =
     (case p of (x, y) \<Rightarrow>
        (case apply_ctm m (int x, int y) of (x0, y0) \<Rightarrow>
           (case apply_ctm m (int x + 1, int y + 1) of (x1, y1) \<Rightarrow> (min x0 x1, min y0 y1))))"

text \<open>A new canvas of the given size is transparent black throughout.\<close>

definition blank_canvas :: "nat \<Rightarrow> nat \<Rightarrow> raster" where
  "blank_canvas w h = replicate h (replicate w 0)"

text \<open>
  \<^verbatim>\<open>ctx.drawImage(video, 0, 0, w, h)\<close> onto a canvas of \<open>w\<close> by \<open>h\<close> pixels from a
  frame of the same size: a pixel of the canvas takes the colour of the source pixel
  that lands on it, and keeps its own where none does.
\<close>

definition drawImage :: "ctm \<Rightarrow> raster \<Rightarrow> nat \<Rightarrow> nat \<Rightarrow> raster \<Rightarrow> raster" where
  "drawImage m src w h canvas =
     map (\<lambda>j. map (\<lambda>i.
            (case find (\<lambda>p. dest_pixel m p = (int i, int j)) (List.product [0..<w] [0..<h]) of
               Some (x, y) \<Rightarrow> src ! y ! x
             | None \<Rightarrow> canvas ! j ! i)) [0..<w]) [0..<h]"

text \<open>
  \<^verbatim>\<open>capturePhoto\<close> (ImageUpload, lines 170-205). \<open>toDataURL\<close> is the JPEG encoder
  of the canvas, \<open>hasContext\<close> says whether \<^verbatim>\<open>getContext('2d')\<close> yields a context,
  \<open>videoRef\<close> is \<^verbatim>\<open>videoRef.current\<close>.
\<close>

definition capturePhoto ::
  "(raster \<Rightarrow> string) \<Rightarrow> bool \<Rightarrow> video_element option \<Rightarrow> camera_state
     \<Rightarrow> camera_state \<times> call list" where
  "capturePhoto toDataURL hasContext videoRef s =
     (case videoRef of
        None \<Rightarrow> (s, [Alert ''Failed to capture photo. Camera not available.''])
      | Some v \<Rightarrow>
          if readyState v < HAVE_METADATA
          then (s, [Alert ''Camera is not ready yet. Please wait a moment.''])
          else if videoWidth v = 0 \<or> videoHeight v = 0
          then (s, [Alert ''Camera is not ready yet, please wait a moment and try again.''])
          else
            (let w = videoWidth v; h = videoHeight v; canvas = blank_canvas w h
             in if hasContext
                then
                  (let ctx = (if facingMode s = User
                              then scale (- 1) 1 (translate (int w) 0 identity_ctm)
                              else identity_ctm);
                       drawn = drawImage ctx (frame v) w h canvas
                   in (stopCamera s, [ImageSelected (DataUrl (toDataURL drawn))]))
                else (s, [Alert ''Failed to capture photo. Could not process image.''])))"

definition wellformed_frame :: "video_element \<Rightarrow> bool" where
  "wellformed_frame v =
     (length (frame v) = videoHeight v \<and> list_all (\<lambda>row. length row = videoWidth v) (frame v))"

subsection \<open>The torch\<close>

definition tracks_of :: "MediaStream list \<Rightarrow> nat \<Rightarrow> MediaStream" where
  "tracks_of ss k = (if k < length ss then ss ! k else [])"

text \<open>
  \<^verbatim>\<open>toggleTorch\<close> (ImageUpload, lines 114-139). \<open>applyOk\<close> says whether
  \<^verbatim>\<open>applyConstraints\<close> resolves; when it rejects, the \<^verbatim>\<open>catch\<close> alerts and the
  flag is left alone. With no stream in the state the handler does nothing at all.
\<close>

definition toggleTorch ::
  "bool \<Rightarrow> MediaStream list \<Rightarrow> camera_state \<Rightarrow> MediaStream list \<times> camera_state \<times> call list" where
  "toggleTorch applyOk ss s =
     (case stream s of
        None \<Rightarrow> (ss, s, [])
      | Some k \<Rightarrow>
          (case tracks_of ss k of
             [] \<Rightarrow> (ss, s, [Alert ''Torch is not supported.''])
           | t # rest \<Rightarrow>
               if torchCapability t = Some True
               then
                 (if applyOk
                  then (ss[k := t\<lparr>torchSetting := \<not> torchSetting t\<rparr> # rest],
                        s\<lparr>isTorchOn := \<not> isTorchOn s\<rparr>, [])
                  else (ss, s, [Alert ''Unable to toggle torch.'']))
               else (ss, s, [Alert ''Torch is not supported.''])))"

text \<open>Whether the stream held in the state has a first video track that reports the torch.\<close>

definition torch_capable :: "MediaStream list \<Rightarrow> camera_state \<Rightarrow> bool" where
  "torch_capable ss s =
     (case stream s of
        None \<Rightarrow> False
      | Some k \<Rightarrow> (case tracks_of ss k of [] \<Rightarrow> False | t # rest \<Rightarrow> torchCapability t = Some True))"

subsection \<open>The two playback attempts\<close>

text \<open>
  The settling of a \<^verbatim>\<open>play()\<close> promise of \<^verbatim>\<open>setupStream\<close> (ImageUpload, lines
  57-81), with whether it resolved. The immediate attempt clears the loading flag when
  it resolves and leaves it when it rejects; the attempt made from
  \<^verbatim>\<open>onloadedmetadata\<close> clears it either way.
\<close>

datatype play_signal = ImmediatePlay bool | MetadataPlay bool

fun succeeded :: "play_signal \<Rightarrow> bool" where
  "succeeded (ImmediatePlay ok) = ok"
| "succeeded (MetadataPlay ok) = ok"

fun playSettled :: "camera_state \<Rightarrow> play_signal \<Rightarrow> camera_state" where
  "playSettled s (ImmediatePlay ok) = (if ok then s\<lparr>isCameraLoading := False\<rparr> else s)"
| "playSettled s (MetadataPlay ok) = s\<lparr>isCameraLoading := False\<rparr>"

subsection \<open>The camera effect as a transition system\<close>

text \<open>
  Each run of the effect (ImageUpload, lines 19-112) has variables of its own:
  \<^verbatim>\<open>currentStream\<close>, assigned when \<^verbatim>\<open>getUserMedia\<close> resolves, and
  \<^verbatim>\<open>videoElement\<close>, the value of the ref when the run began. \<open>owner\<close> is the
  mounted instance of the component whose state setters the run calls: a setter of an
  instance that is no longer mounted does nothing.
\<close>

record effect_closure =
  owner :: nat
  currentStream :: "nat option"
  videoElement :: "nat option"

text \<open>
  A mounted instance: its state, \<^verbatim>\<open>videoRef.current\<close>, and the effect run whose
  cleanup React holds.
\<close>

record component =
  ident :: nat
  st :: camera_state
  videoRef :: "nat option"
  effect_run :: nat

text \<open>
  The browser around the component: the streams handed out so far, the video elements
  created so far, the variables of every effect run, the \<^verbatim>\<open>getUserMedia\<close> promises
  not yet settled (effect run and facing mode asked for), the \<^verbatim>\<open>play()\<close> promises
  not yet settled (instance and which attempt), the mounted instance if any, the number
  of instances mounted so far, and the calls made on the surroundings.
\<close>

record world =
  streams :: "MediaStream list"
  videos :: "video_element list"
  closures :: "effect_closure list"
  requests :: "(nat \<times> facing) list"
  plays :: "(nat \<times> bool) list"
  mounted :: "component option"
  instances :: nat
  calls :: "call list"

definition initial_world :: world where
  "initial_world =
     \<lparr>streams = [], videos = [], closures = [], requests = [], plays = [],
      mounted = None, instances = 0, calls = []\<rparr>"

definition fresh_video :: video_element where
  "fresh_video =
     \<lparr>readyState = 0, videoWidth = 0, videoHeight = 0, frame = [],
      srcObject = None, onloadedmetadata = None\<rparr>"

text \<open>\<^verbatim>\<open>stream.getTracks().forEach(track => track.stop())\<close>.\<close>

definition stop_tracks :: "nat \<Rightarrow> MediaStream list \<Rightarrow> MediaStream list" where
  "stop_tracks k ss = (if k < length ss then ss[k := map (\<lambda>t. t\<lparr>live := False\<rparr>) (ss ! k)] else ss)"

definition active :: "MediaStream \<Rightarrow> bool" where
  "active ms = list_ex live ms"

definition active_streams :: "world \<Rightarrow> nat" where
  "active_streams w = length (filter active (streams w))"

text \<open>A state setter called on behalf of instance \<open>i\<close>.\<close>

definition set_state :: "nat \<Rightarrow> (camera_state \<Rightarrow> camera_state) \<Rightarrow> world \<Rightarrow> world" where
  "set_state i f w =
     (case mounted w of
        None \<Rightarrow> w
      | Some c \<Rightarrow> if ident c = i then w\<lparr>mounted := Some (c\<lparr>st := f (st c)\<rparr>)\<rparr> else w)"

text \<open>
  The cleanup function of effect run \<open>k\<close> (lines 94-111): it stops the tracks of the
  run's own \<^verbatim>\<open>currentStream\<close>, if that has been assigned by now.
\<close>

definition cleanup :: "nat \<Rightarrow> world \<Rightarrow> world" where
  "cleanup k w =
     (if k < length (closures w)
      then
        (let c = closures w ! k;
             w1 = set_state (owner c) (\<lambda>s. s\<lparr>isCameraLoading := False\<rparr>) w;
             w2 = (case currentStream c of
                     None \<Rightarrow> w1
                   | Some cs \<Rightarrow> w1\<lparr>streams := stop_tracks cs (streams w1)\<rparr>);
             w3 = (case videoElement c of
                     None \<Rightarrow> w2
                   | Some v \<Rightarrow>
                       if v < length (videos w2)
                       then w2\<lparr>videos := (videos w2)
                              [v := (videos w2 ! v)\<lparr>srcObject := None, onloadedmetadata := None\<rparr>]\<rparr>
                       else w2)
         in set_state (owner c)
              (\<lambda>s. s\<lparr>stream := (if stream s = currentStream c then None else stream s)\<rparr>) w3)
      else w)"

text \<open>
  A run of the effect up to its first \<^verbatim>\<open>await\<close> (lines 20-41). \<open>rendered\<close> is the
  \<^verbatim>\<open>stream\<close> of the render the effect belongs to.
\<close>

definition run_effect :: "nat option \<Rightarrow> world \<Rightarrow> world" where
  "run_effect rendered w =
     (case mounted w of
        None \<Rightarrow> w
      | Some c \<Rightarrow>
          (let k = length (closures w);
               w1 = w\<lparr>closures := closures w @
                         [\<lparr>owner = ident c, currentStream = None, videoElement = videoRef c\<rparr>],
                      mounted := Some (c\<lparr>effect_run := k\<rparr>)\<rparr>
           in if \<not> showCamera (st c) \<or> videoRef c = None then w1
              else
                (let w2 = set_state (ident c) (\<lambda>s. s\<lparr>isCameraLoading := True\<rparr>) w1;
                     w3 = (case rendered of
                             None \<Rightarrow> w2
                           | Some ps \<Rightarrow>
                               set_state (ident c) (\<lambda>s. s\<lparr>stream := None\<rparr>)
                                 (w2\<lparr>streams := stop_tracks ps (streams w2)\<rparr>))
                 in w3\<lparr>requests := requests w3 @ [(k, facingMode (st c))]\<rparr>)))"

text \<open>
  The commit after a render. The \<^verbatim>\<open>video\<close> element exists while
  \<^verbatim>\<open>showCamera\<close> holds (line 228), and the ref follows it. When \<^verbatim>\<open>showCamera\<close>
  or \<^verbatim>\<open>facingMode\<close> differs from the previous render, React runs the cleanup of
  the previous effect run and then the effect again.
\<close>

definition commit :: "camera_state \<Rightarrow> world \<Rightarrow> world" where
  "commit old w =
     (case mounted w of
        None \<Rightarrow> w
      | Some c \<Rightarrow>
          (let w1 = (if showCamera (st c) \<and> \<not> showCamera old
                     then w\<lparr>videos := videos w @ [fresh_video],
                            mounted := Some (c\<lparr>videoRef := Some (length (videos w))\<rparr>)\<rparr>
                     else if \<not> showCamera (st c) \<and> showCamera old
                     then w\<lparr>mounted := Some (c\<lparr>videoRef := None\<rparr>)\<rparr>
                     else w)
           in if showCamera (st c) = showCamera old \<and> facingMode (st c) = facingMode old
              then w1
              else run_effect (stream (st c)) (cleanup (effect_run c) w1)))"

text \<open>A state update made on behalf of instance \<open>i\<close>, and the render it causes.\<close>

definition update :: "nat \<Rightarrow> (camera_state \<Rightarrow> camera_state) \<Rightarrow> world \<Rightarrow> world" where
  "update i f w =
     (case mounted w of
        None \<Rightarrow> w
      | Some c \<Rightarrow> if ident c = i then commit (st c) (set_state i f w) else w)"

definition remove_nth :: "nat \<Rightarrow> 'a list \<Rightarrow> 'a list" where
  "remove_nth i xs = take i xs @ drop (Suc i) xs"

text \<open>
  \<^verbatim>\<open>getUserMedia\<close> resolves with a stream for pending request \<open>i\<close>: the rest of the
  \<^verbatim>\<open>try\<close> block (lines 39-81) up to the immediate \<^verbatim>\<open>play()\<close>. It runs whether
  or not the cleanup of its effect run has run meanwhile. A stream with no video track
  makes \<^verbatim>\<open>track.getCapabilities()\<close> raise, which the \<^verbatim>\<open>catch\<close> handles.
\<close>

definition getUserMedia_resolved :: "nat \<Rightarrow> MediaStream \<Rightarrow> world \<Rightarrow> world" where
  "getUserMedia_resolved i ms w =
     (if i < length (requests w) \<and> fst (requests w ! i) < length (closures w)
      then
        (let k = fst (requests w ! i);
             c = closures w ! k;
             sid = length (streams w);
             w1 = w\<lparr>requests := remove_nth i (requests w),
                    streams := streams w @ [ms],
                    closures := (closures w)[k := c\<lparr>currentStream := Some sid\<rparr>]\<rparr>
         in case ms of
              [] \<Rightarrow>
                update (owner c) (\<lambda>s. s\<lparr>showCamera := False, isCameraLoading := False\<rparr>)
                  (w1\<lparr>calls := calls w1 @
                     [Alert ''Unable to access camera. Please make sure you have granted camera permissions.'']\<rparr>)
            | t # rest \<Rightarrow>
                (let w2 = set_state (owner c)
                            (\<lambda>s. s\<lparr>isTorchSupported := (torchCapability t \<noteq> None),
                                   stream := Some sid\<rparr>) w1;
                     w3 = (case videoElement c of
                             None \<Rightarrow> w2
                           | Some v \<Rightarrow>
                               if v < length (videos w2)
                               then w2\<lparr>videos := (videos w2)
                                      [v := (videos w2 ! v)\<lparr>srcObject := Some sid,
                                                             onloadedmetadata := Some k\<rparr>]\<rparr>
                               else w2)
                 in w3\<lparr>plays := plays w3 @ [(owner c, False)]\<rparr>))
      else w)"

text \<open>\<^verbatim>\<open>getUserMedia\<close> rejects for pending request \<open>i\<close>: the \<^verbatim>\<open>catch\<close> (lines 83-88).\<close>

definition getUserMedia_rejected :: "nat \<Rightarrow> world \<Rightarrow> world" where
  "getUserMedia_rejected i w =
     (if i < length (requests w) \<and> fst (requests w ! i) < length (closures w)
      then
        (let c = closures w ! fst (requests w ! i);
             w1 = w\<lparr>requests := remove_nth i (requests w),
                    calls := calls w @
                      [Alert ''Unable to access camera. Please make sure you have granted camera permissions.'']\<rparr>
         in update (owner c) (\<lambda>s. s\<lparr>showCamera := False, isCameraLoading := False\<rparr>) w1)
      else w)"

text \<open>
  The element \<open>v\<close> learns the size of its picture. If a handler is installed and
  \<^verbatim>\<open>videoRef.current\<close> of the installing instance is set, the handler starts the
  second \<^verbatim>\<open>play()\<close> (lines 59-71).
\<close>

definition loadedmetadata :: "nat \<Rightarrow> nat \<Rightarrow> nat \<Rightarrow> raster \<Rightarrow> world \<Rightarrow> world" where
  "loadedmetadata v wd ht fr w =
     (if v < length (videos w) \<and> srcObject (videos w ! v) \<noteq> None
      then
        (let w1 = w\<lparr>videos := (videos w)
                      [v := (videos w ! v)\<lparr>readyState := HAVE_METADATA, videoWidth := wd,
                                            videoHeight := ht, frame := fr\<rparr>]\<rparr>
         in case onloadedmetadata (videos w ! v) of
              None \<Rightarrow> w1
            | Some k \<Rightarrow>
                if k < length (closures w)
                then (case mounted w of
                        None \<Rightarrow> w1
                      | Some c \<Rightarrow>
                          if ident c = owner (closures w ! k) \<and> videoRef c \<noteq> None
                          then w1\<lparr>plays := plays w1 @ [(ident c, True)]\<rparr>
                          else w1)
                else w1)
      else w)"

text \<open>
  What can happen to the component: React mounts or unmounts it (App renders it only in
  the idle scan view, line 136), the user presses a button (the camera buttons exist
  while \<^verbatim>\<open>showCamera\<close> holds and are disabled while \<^verbatim>\<open>isCameraLoading\<close> holds,
  lines 228-286; the start button and the file input exist otherwise), or the browser
  settles a promise or fires an event.
\<close>

datatype event =
    Mount
  | Unmount
  | StartCameraClick
  | ToggleCameraClick
  | StopCameraClick
  | CaptureClick bool
  | TorchClick bool
  | FileInput File
  | GetUserMediaResolved nat MediaStream
  | GetUserMediaRejected nat
  | LoadedMetadata nat nat nat raster
  | PlaySettled nat bool

definition buttons_enabled :: "component \<Rightarrow> bool" where
  "buttons_enabled c = (showCamera (st c) \<and> \<not> isCameraLoading (st c))"

definition video_of :: "world \<Rightarrow> component \<Rightarrow> video_element option" where
  "video_of w c =
     (case videoRef c of
        None \<Rightarrow> None
      | Some v \<Rightarrow> if v < length (videos w) then Some (videos w ! v) else None)"

fun step :: "(raster \<Rightarrow> string) \<Rightarrow> world \<Rightarrow> event \<Rightarrow> world" where
  "step enc w Mount =
     (case mounted w of
        Some c \<Rightarrow> w
      | None \<Rightarrow>
          run_effect None
            (w\<lparr>mounted := Some \<lparr>ident = instances w, st = initial_camera_state,
                                  videoRef = None, effect_run = 0\<rparr>,
               instances := Suc (instances w)\<rparr>))"
| "step enc w Unmount =
     (case mounted w of
        None \<Rightarrow> w
      | Some c \<Rightarrow> (cleanup (effect_run c) w)\<lparr>mounted := None\<rparr>)"
| "step enc w StartCameraClick =
     (case mounted w of
        None \<Rightarrow> w
      | Some c \<Rightarrow> if showCamera (st c) then w else update (ident c) handleStartCameraClick w)"
| "step enc w ToggleCameraClick =
     (case mounted w of
        None \<Rightarrow> w
      | Some c \<Rightarrow> if buttons_enabled c then update (ident c) toggleCamera w else w)"
| "step enc w StopCameraClick =
     (case mounted w of
        None \<Rightarrow> w
      | Some c \<Rightarrow> if buttons_enabled c then update (ident c) stopCamera w else w)"
| "step enc w (CaptureClick hasContext) =
     (case mounted w of
        None \<Rightarrow> w
      | Some c \<Rightarrow>
          if buttons_enabled c
          then (case capturePhoto enc hasContext (video_of w c) (st c) of
                  (s', outs) \<Rightarrow> update (ident c) (\<lambda>s. s') (w\<lparr>calls := calls w @ outs\<rparr>))
          else w)"
| "step enc w (TorchClick applyOk) =
     (case mounted w of
        None \<Rightarrow> w
      | Some c \<Rightarrow>
          if buttons_enabled c
          then (case toggleTorch applyOk (streams w) (st c) of
                  (ss', s', outs) \<Rightarrow>
                    update (ident c) (\<lambda>s. s') (w\<lparr>streams := ss', calls := calls w @ outs\<rparr>))
          else w)"
| "step enc w (FileInput f) =
     (case mounted w of
        None \<Rightarrow> w
      | Some c \<Rightarrow> if showCamera (st c) then w else w\<lparr>calls := calls w @ handleFile f\<rparr>)"
| "step enc w (GetUserMediaResolved i ms) = getUserMedia_resolved i ms w"
| "step enc w (GetUserMediaRejected i) = getUserMedia_rejected i w"
| "step enc w (LoadedMetadata v wd ht fr) = loadedmetadata v wd ht fr w"
| "step enc w (PlaySettled j ok) =
     (if j < length (plays w)
      then (case plays w ! j of
              (i, from_metadata) \<Rightarrow>
                set_state i
                  (\<lambda>s. playSettled s (if from_metadata then MetadataPlay ok else ImmediatePlay ok))
                  (w\<lparr>plays := remove_nth j (plays w)\<rparr>))
      else w)"

definition run :: "(raster \<Rightarrow> string) \<Rightarrow> event list \<Rightarrow> world" where
  "run enc evs = foldl (step enc) initial_world evs"

subsection \<open>Sample values\<close>

definition sample_analysis :: "nat analysis" where
  "sample_analysis =
     \<lparr>crop_name = ''Tomato'', disease_detected = True, disease_name = ''Early blight'',
      confidence_percentage = 92, danger_level = 60, symptoms = [''Dark spots''],
      treatments = [''Fungicide''], prevention_tips = [''Rotate crops''],
      disease_description = ''A fungal disease''\<rparr>"

definition sample_completed :: "nat \<Rightarrow> nat completed" where
  "sample_completed k =
     (replicate k CHR ''u'', replicate k CHR ''d'', ''data:image/jpeg;base64,'', sample_analysis)"

definition sample_env :: "nat env" where
  "sample_env =
     \<lparr>tr = (\<lambda>k. k), analyzeImage = (\<lambda>img lang loc. Inr sample_analysis),
      readAsDataURL = (\<lambda>f. ''data:'' @ type f @ '';base64,''), randomUUID = ''uuid-1'',
      toLocaleString = ''1/1/2026, 10:00:00 AM''\<rparr>"


definition sample_page :: "nat storage \<Rightarrow> nat page" where
  "sample_page ls =
     \<lparr>app = \<lparr>analyzing = False, results = None, currentImage = None, error = None,
              currentView = Scan, location = None, showSplash = False\<rparr>,
      localStorage = ls, clientCalls = []\<rparr>"

definition sample_video :: "nat \<Rightarrow> video_element" where
  "sample_video rs =
     \<lparr>readyState = rs, videoWidth = 3, videoHeight = 2, frame = [[1, 2, 3], [4, 5, 6]],
      srcObject = Some 0, onloadedmetadata = Some 1\<rparr>"

definition live_camera :: "facing \<Rightarrow> camera_state" where
  "live_camera m =
     \<lparr>showCamera = True, stream = Some 0, facingMode = m, isCameraLoading = False,
      isTorchSupported = False, isTorchOn = False\<rparr>"

definition sample_encoder :: "raster \<Rightarrow> string" where
  "sample_encoder r = map (\<lambda>p. char_of p) (concat r)"

definition sample_track :: "bool option \<Rightarrow> track" where
  "sample_track cap = \<lparr>live = True, torchCapability = cap, torchSetting = False\<rparr>"

definition sample_file :: "string \<Rightarrow> File" where
  "sample_file ty = \<lparr>name = ''upload'', type = ty\<rparr>"

definition live_world :: world where
  "live_world = run sample_encoder
     [Mount, StartCameraClick, GetUserMediaResolved 0 [sample_track (Some True)], PlaySettled 0 True]"

definition ready_world :: world where
  "ready_world = run sample_encoder
     [Mount, StartCameraClick, GetUserMediaResolved 0 [sample_track (Some True)],
      LoadedMetadata 0 3 2 [[1, 2, 3], [4, 5, 6]], PlaySettled 0 True]"

definition idle_world :: world where
  "idle_world = run sample_encoder [Mount]"

text \<open>
  Event sequences: the camera is started and the component is unmounted while
  \<^verbatim>\<open>getUserMedia\<close> is pending; a later visit that starts the camera again; and two
  toggles of the facing mode, the second made possible by the late settling of a
  \<^verbatim>\<open>play()\<close> promise of the first stream.
\<close>

definition leak_trace :: "event list" where
  "leak_trace =
     [Mount, StartCameraClick, Unmount, GetUserMediaResolved 0 [sample_track None]]"

definition second_visit :: "event list" where
  "second_visit = [Mount, StartCameraClick, GetUserMediaResolved 0 [sample_track None]]"

definition double_toggle_trace :: "event list" where
  "double_toggle_trace =
     [Mount, StartCameraClick, GetUserMediaResolved 0 [sample_track None],
      LoadedMetadata 0 3 2 [[1, 2, 3], [4, 5, 6]], PlaySettled 0 True,
      ToggleCameraClick, PlaySettled 0 False, ToggleCameraClick,
      GetUserMediaResolved 0 [sample_track None], GetUserMediaResolved 0 [sample_track None]]"

text \<open>
  The camera is opened, the video reports its metadata and the immediate \<^verbatim>\<open>play()\<close>
  is rejected, so that only the attempt from \<^verbatim>\<open>onloadedmetadata\<close> is pending.
\<close>

definition rejected_plays_trace :: "event list" where
  "rejected_plays_trace =
     [Mount, StartCameraClick, GetUserMediaResolved 0 [sample_track None],
      LoadedMetadata 0 3 2 [[1, 2, 3], [4, 5, 6]], PlaySettled 0 False]"

section \<open>Properties\<close>

subsection \<open>The history store\<close>

lemma saveToHistory_prior:
  "prior_history ls = Some old \<Longrightarrow>
   saveToHistory u d i r ls = Inr (Some (Serialised (JArr (take 50 (historyItem u d i r # old)))))"
  by (cases ls rule: prior_history.cases) (simp_all add: saveToHistory_def)

lemma saveToHistory_no_prior:
  "prior_history ls = None \<Longrightarrow>
   saveToHistory u d i r ls = Inl SyntaxError \<or> saveToHistory u d i r ls = Inl TypeError"
  by (cases ls rule: prior_history.cases) (simp_all add: saveToHistory_def)

lemma take_append_take: "take n (xs @ take n ys) = take n (xs @ ys)"
  by simp

lemma saveAll_prior:
  "prior_history ls = Some old \<Longrightarrow> cs \<noteq> [] \<Longrightarrow>
   saveAll cs ls = Inr (Some (Serialised (JArr (take 50 (rev (map item_of cs) @ old)))))"
proof (induction cs arbitrary: ls old)
  case Nil
  then show ?case by simp
next
  case (Cons c cs)
  obtain u d i r where c: "c = (u, d, i, r)" by (cases c) auto
  let ?ls' = "Some (Serialised (JArr (take 50 (historyItem u d i r # old))))"
  have s: "saveToHistory u d i r ls = Inr ?ls'"
    using Cons.prems(1) by (rule saveToHistory_prior)
  have p: "prior_history ?ls' = Some (take 50 (historyItem u d i r # old))" by simp
  have e: "rev (map item_of (c # cs)) @ old = rev (map item_of cs) @ (historyItem u d i r # old)"
    using c by (simp add: item_of_def)
  show ?case
  proof (cases "cs = []")
    case True
    then show ?thesis using s c by (simp add: item_of_def)
  next
    case False
    have "saveAll (c # cs) ls = saveAll cs ?ls'" using s c by simp
    also have "\<dots> = Inr (Some (Serialised (JArr
                 (take 50 (rev (map item_of cs) @ take 50 (historyItem u d i r # old))))))"
      using Cons.IH [OF p False] .
    also have "take 50 (rev (map item_of cs) @ take 50 (historyItem u d i r # old))
             = take 50 (rev (map item_of (c # cs)) @ old)"
      by (simp only: take_append_take e)
    finally show ?thesis .
  qed
qed

lemma saveToHistory_Inr:
  assumes "saveToHistory u d i r ls = Inr ls'"
  shows "\<exists>old. prior_history ls = Some old
               \<and> ls' = Some (Serialised (JArr (take 50 (historyItem u d i r # old))))"
proof (cases "prior_history ls")
  case None
  then show ?thesis using saveToHistory_no_prior [of ls u d i r] assms by auto
next
  case (Some old)
  then show ?thesis using saveToHistory_prior [of ls old u d i r] assms by simp
qed

text \<open>
  C1. Whenever \<^verbatim>\<open>saveToHistory\<close> completes, whatever was stored before, it leaves
  an array of at most 50 entries whose entry at index 0 is the one just appended.
  Starting from a store that holds no history, an empty text or an array, every append
  of a sequence of completed analyses completes in this way; once more than 50 have
  been appended, the array is exactly the last 50 of them, newest first.
\<close>

theorem C1_history_capped_newest_first:
  "(saveToHistory u d i r ls0 = Inr ls' \<longrightarrow>
      (\<exists>xs. ls' = Some (Serialised (JArr xs)) \<and> length xs \<le> 50
            \<and> xs ! 0 = historyItem u d i r))
   \<and> (prior_history ls = Some old \<longrightarrow>
        (\<forall>k < length cs. \<exists>xs.
            saveAll (take (Suc k) cs) ls = Inr (Some (Serialised (JArr xs)))
            \<and> length xs \<le> 50 \<and> xs ! 0 = item_of (cs ! k))
        \<and> (50 < length cs \<longrightarrow>
             saveAll cs ls =
               Inr (Some (Serialised (JArr (rev (map item_of (drop (length cs - 50) cs))))))))"
proof (intro conjI allI impI)
  assume "saveToHistory u d i r ls0 = Inr ls'"
  then obtain old0 where "ls' = Some (Serialised (JArr (take 50 (historyItem u d i r # old0))))"
    using saveToHistory_Inr by blast
  moreover have "length (take 50 (historyItem u d i r # old0)) \<le> 50" by simp
  moreover have "take 50 (historyItem u d i r # old0) ! 0 = historyItem u d i r" by simp
  ultimately show "\<exists>xs. ls' = Some (Serialised (JArr xs)) \<and> length xs \<le> 50
            \<and> xs ! 0 = historyItem u d i r" by blast
next
  fix k assume p: "prior_history ls = Some old" and k: "k < length cs"
  let ?p = "take (Suc k) cs"
  have ne: "?p \<noteq> []" using k by auto
  have "?p = take k cs @ [cs ! k]" using k by (simp add: take_Suc_conv_app_nth)
  then have r: "rev (map item_of ?p) = item_of (cs ! k) # rev (map item_of (take k cs))"
    by simp
  let ?xs = "take 50 (rev (map item_of ?p) @ old)"
  have "saveAll ?p ls = Inr (Some (Serialised (JArr ?xs)))"
    using saveAll_prior [OF p ne] .
  moreover have "length ?xs \<le> 50" by simp
  moreover have "?xs ! 0 = item_of (cs ! k)" unfolding r by simp
  ultimately show "\<exists>xs. saveAll ?p ls = Inr (Some (Serialised (JArr xs)))
            \<and> length xs \<le> 50 \<and> xs ! 0 = item_of (cs ! k)" by blast
next
  assume p: "prior_history ls = Some old" and n: "50 < length cs"
  then have ne: "cs \<noteq> []" by auto
  have "take 50 (rev (map item_of cs) @ old) = take 50 (rev (map item_of cs))"
    using n by simp
  also have "\<dots> = rev (drop (length cs - 50) (map item_of cs))"
    by (simp add: take_rev)
  also have "\<dots> = rev (map item_of (drop (length cs - 50) cs))"
    by (simp add: drop_map)
  finally show "saveAll cs ls =
      Inr (Some (Serialised (JArr (rev (map item_of (drop (length cs - 50) cs))))))"
    using saveAll_prior [OF p ne] by simp
qed

theorem C1_history_capped_newest_first_witness:
  "(\<exists>xs. saveToHistory ''u'' ''d'' ''img'' sample_analysis (Some (Serialised (JArr [JNull])))
           = Inr (Some (Serialised (JArr xs)))
         \<and> length xs \<le> 50 \<and> xs ! 0 = historyItem ''u'' ''d'' ''img'' sample_analysis)
   \<and> (\<exists>xs. saveAll (take 3 (map sample_completed [0..<51])) None = Inr (Some (Serialised (JArr xs)))
         \<and> length xs \<le> 50 \<and> xs ! 0 = item_of (sample_completed 2))
   \<and> saveAll (map sample_completed [0..<51]) None =
       Inr (Some (Serialised (JArr (rev (map item_of (map sample_completed [1..<51]))))))"
proof -
  let ?ls' = "Some (Serialised (JArr [historyItem ''u'' ''d'' ''img'' sample_analysis, JNull]))"
  have s: "saveToHistory ''u'' ''d'' ''img'' sample_analysis (Some (Serialised (JArr [JNull])))
           = Inr ?ls'"
    by (simp add: saveToHistory_def)
  have p: "prior_history (None :: nat storage) = Some []" by simp
  have d: "drop (Suc 0) (map sample_completed [0..<51]) = map sample_completed [1..<51]"
    by (simp add: drop_map)
  note t = C1_history_capped_newest_first
             [of "''u''" "''d''" "''img''" sample_analysis "Some (Serialised (JArr [JNull]))" ?ls'
                 None "[]" "map sample_completed [0..<51]"]
  from t s have 1: "\<exists>xs. ?ls' = Some (Serialised (JArr xs)) \<and> length xs \<le> 50
            \<and> xs ! 0 = historyItem ''u'' ''d'' ''img'' sample_analysis"
    by blast
  from t p have 2: "\<forall>k < length (map sample_completed [0..<51]). \<exists>xs.
            saveAll (take (Suc k) (map sample_completed [0..<51])) None
              = Inr (Some (Serialised (JArr xs)))
            \<and> length xs \<le> 50 \<and> xs ! 0 = item_of (map sample_completed [0..<51] ! k)"
    and 3: "50 < length (map sample_completed [0..<51]) \<longrightarrow>
             saveAll (map sample_completed [0..<51]) None =
               Inr (Some (Serialised (JArr (rev (map item_of
                 (drop (length (map sample_completed [0..<51]) - 50)
                    (map sample_completed [0..<51])))))))"
    by blast+
  have b2: "\<exists>xs. saveAll (take 3 (map sample_completed [0..<51])) None
              = Inr (Some (Serialised (JArr xs)))
         \<and> length xs \<le> 50 \<and> xs ! 0 = item_of (sample_completed 2)"
    using 2 [rule_format, of 2] by (simp add: numeral_3_eq_3 numeral_2_eq_2)
  have b3: "saveAll (map sample_completed [0..<51]) None =
       Inr (Some (Serialised (JArr (rev (map item_of (map sample_completed [1..<51]))))))"
    using 3 d by simp
  show ?thesis using 1 s b2 b3 by simp
qed

text \<open>
  C2, as stated, fails for the append: a stored text that does not parse makes
  \<^verbatim>\<open>saveToHistory\<close> raise where an empty prior list would have been extended, and
  the stored text stays as it was.
\<close>

theorem C2_malformed_append_counterexample:
  "saveToHistory ''u'' ''d'' ''img'' sample_analysis (Some Unparsable) = Inl SyntaxError
   \<and> saveToHistory ''u'' ''d'' ''img'' sample_analysis (Some (Serialised (JArr []))) =
       Inr (Some (Serialised (JArr [historyItem ''u'' ''d'' ''img'' sample_analysis])))
   \<and> localStorage (handleImageAnalysis sample_env (DataUrl ''img'') (sample_page (Some Unparsable)))
       = Some Unparsable"
  by (simp add: saveToHistory_def handleImageAnalysis_def sample_env_def sample_page_def Let_def)

text \<open>When saving raises, the \<^verbatim>\<open>catch\<close> of \<^verbatim>\<open>handleImageAnalysis\<close> takes the exception.\<close>

lemma handleImageAnalysis_save_raises:
  assumes "prior_history (localStorage p) = None"
  shows "localStorage (handleImageAnalysis e d p) = localStorage p
         \<and> \<not> analyzing (app (handleImageAnalysis e d p))"
proof -
  let ?img = "case d of FileData f \<Rightarrow> readAsDataURL e f | DataUrl s \<Rightarrow> s"
  show ?thesis
  proof (cases "analyzeImage e ?img (tr e ''language'') (location (app p))")
    case (Inl err)
    then show ?thesis by (simp add: handleImageAnalysis_def Let_def)
  next
    case (Inr r)
    from saveToHistory_no_prior [OF assms, of "randomUUID e" "toLocaleString e" ?img r]
    show ?thesis using Inr by (auto simp: handleImageAnalysis_def Let_def)
  qed
qed

text \<open>
  C2, amended. A missing key and an empty text are treated as an empty history by both
  operations: loading yields the empty list and the append writes the one-entry list.
  A stored value that is not a parseable array is treated as empty by loading only: the
  append raises before anything is written, \<^verbatim>\<open>handleImageAnalysis\<close> catches the
  exception and ends with \<^verbatim>\<open>analyzing\<close> cleared, and the stored value is left as it
  was.
\<close>

theorem C2_absent_or_malformed_history:
  "(ls = None \<or> ls = Some EmptyText \<longrightarrow>
      loadAll ls = []
      \<and> saveToHistory u d i r ls = saveToHistory u d i r (Some (Serialised (JArr [])))
      \<and> saveToHistory u d i r ls = Inr (Some (Serialised (JArr [historyItem u d i r]))))
   \<and> (prior_history ls = None \<longrightarrow>
      loadAll ls = []
      \<and> (saveToHistory u d i r ls = Inl SyntaxError \<or> saveToHistory u d i r ls = Inl TypeError)
      \<and> localStorage (handleImageAnalysis e dat (p\<lparr>localStorage := ls\<rparr>)) = ls
      \<and> \<not> analyzing (app (handleImageAnalysis e dat (p\<lparr>localStorage := ls\<rparr>))))"
proof (intro conjI impI)
  assume "ls = None \<or> ls = Some EmptyText"
  then show "loadAll ls = []" by auto
  show "saveToHistory u d i r ls = saveToHistory u d i r (Some (Serialised (JArr [])))"
    using \<open>ls = None \<or> ls = Some EmptyText\<close> by (auto simp: saveToHistory_def)
  show "saveToHistory u d i r ls = Inr (Some (Serialised (JArr [historyItem u d i r])))"
    using \<open>ls = None \<or> ls = Some EmptyText\<close> by (auto simp: saveToHistory_def)
next
  assume n: "prior_history ls = None"
  show "loadAll ls = []" using n by (cases ls rule: prior_history.cases) simp_all
  show "saveToHistory u d i r ls = Inl SyntaxError \<or> saveToHistory u d i r ls = Inl TypeError"
    using n by (rule saveToHistory_no_prior)
  have "prior_history (localStorage (p\<lparr>localStorage := ls\<rparr>)) = None" using n by simp
  from handleImageAnalysis_save_raises [OF this, of e dat]
  show "localStorage (handleImageAnalysis e dat (p\<lparr>localStorage := ls\<rparr>)) = ls"
    and "\<not> analyzing (app (handleImageAnalysis e dat (p\<lparr>localStorage := ls\<rparr>)))" by simp_all
qed

theorem C2_absent_or_malformed_history_witness:
  "(loadAll (None :: nat storage) = []
    \<and> saveToHistory ''u'' ''d'' ''img'' sample_analysis None =
        Inr (Some (Serialised (JArr [historyItem ''u'' ''d'' ''img'' sample_analysis]))))
   \<and> (loadAll (Some (Serialised (JObj [])) :: nat storage) = []
    \<and> saveToHistory ''u'' ''d'' ''img'' sample_analysis (Some (Serialised (JObj []))) = Inl TypeError
    \<and> localStorage (handleImageAnalysis sample_env (DataUrl ''img'')
         ((sample_page None)\<lparr>localStorage := Some (Serialised (JObj []))\<rparr>))
        = Some (Serialised (JObj [])))"
proof
  have a: "(None :: nat storage) = None \<or> (None :: nat storage) = Some EmptyText" by simp
  from C2_absent_or_malformed_history
         [of "None :: nat storage" "''u''" "''d''" "''img''" sample_analysis,
          THEN conjunct1, THEN mp, OF a]
  show "loadAll (None :: nat storage) = []
    \<and> saveToHistory ''u'' ''d'' ''img'' sample_analysis None =
        Inr (Some (Serialised (JArr [historyItem ''u'' ''d'' ''img'' sample_analysis])))"
    by blast
next
  have a: "prior_history (Some (Serialised (JObj [])) :: nat storage) = None" by simp
  have b: "saveToHistory ''u'' ''d'' ''img'' sample_analysis (Some (Serialised (JObj [])))
           \<noteq> Inl SyntaxError"
    by (simp add: saveToHistory_def)
  from C2_absent_or_malformed_history
         [of "Some (Serialised (JObj [])) :: nat storage" "''u''" "''d''" "''img''"
             sample_analysis sample_env "DataUrl ''img''" "sample_page None",
          THEN conjunct2, THEN mp, OF a] b
  show "loadAll (Some (Serialised (JObj [])) :: nat storage) = []
    \<and> saveToHistory ''u'' ''d'' ''img'' sample_analysis (Some (Serialised (JObj []))) = Inl TypeError
    \<and> localStorage (handleImageAnalysis sample_env (DataUrl ''img'')
         ((sample_page None)\<lparr>localStorage := Some (Serialised (JObj []))\<rparr>))
        = Some (Serialised (JObj []))"
    by blast
qed

subsection \<open>The analysis flow\<close>




subsection \<open>Drawing the frame\<close>

lemma find_unique:
  assumes "x \<in> set xs" and "P x" and "\<And>y. y \<in> set xs \<Longrightarrow> P y \<Longrightarrow> y = x"
  shows "find P xs = Some x"
  using assms
proof (induction xs)
  case Nil
  then show ?case by simp
next
  case (Cons a xs)
  show ?case
  proof (cases "P a")
    case True
    then have "a = x" using Cons.prems(3) [of a] by simp
    then show ?thesis using True by simp
  next
    case False
    then have "x \<in> set xs" using Cons.prems(1,2) by auto
    then have "find P xs = Some x"
    proof (rule Cons.IH)
      show "P x" by (rule Cons.prems(2))
      fix y assume "y \<in> set xs" "P y"
      then show "y = x" using Cons.prems(3) [of y] by simp
    qed
    then show ?thesis using False by simp
  qed
qed

lemma drawImage_placed:
  assumes g: "\<And>i j. i < w \<Longrightarrow> j < h \<Longrightarrow> g i < w \<and> dest_pixel m (g i, j) = (int i, int j)"
    and inj: "\<And>x y i j. x < w \<Longrightarrow> y < h \<Longrightarrow> i < w \<Longrightarrow> j < h \<Longrightarrow>
                dest_pixel m (x, y) = (int i, int j) \<Longrightarrow> x = g i \<and> y = j"
  shows "drawImage m src w h canvas = map (\<lambda>j. map (\<lambda>i. src ! j ! g i) [0..<w]) [0..<h]"
proof -
  have "find (\<lambda>p. dest_pixel m p = (int i, int j)) (List.product [0..<w] [0..<h]) = Some (g i, j)"
    if "i < w" "j < h" for i j
  proof (rule find_unique)
    show "(g i, j) \<in> set (List.product [0..<w] [0..<h])" using g [OF that] that by simp
    show "dest_pixel m (g i, j) = (int i, int j)" using g [OF that] by simp
    fix p assume p: "p \<in> set (List.product [0..<w] [0..<h])" "dest_pixel m p = (int i, int j)"
    obtain x y where xy: "p = (x, y)" by (cases p)
    have "x < w" "y < h" using p(1) xy by simp_all
    then have "x = g i \<and> y = j" using inj [of x y i j] that p(2) xy by simp
    then show "p = (g i, j)" using xy by simp
  qed
  then have "map (\<lambda>i. case find (\<lambda>p. dest_pixel m p = (int i, int j)) (List.product [0..<w] [0..<h]) of
                        None \<Rightarrow> canvas ! j ! i | Some (x, y) \<Rightarrow> src ! y ! x) [0..<w]
           = map (\<lambda>i. src ! j ! g i) [0..<w]" if "j < h" for j
    using that by (intro map_cong refl) simp
  then show ?thesis unfolding drawImage_def by (intro map_cong refl) simp
qed
lemma rows_of_frame:
  assumes "length src = h" and "list_all (\<lambda>row. length row = w) src"
  shows "map (\<lambda>j. map (\<lambda>i. src ! j ! i) [0..<w]) [0..<h] = src"
proof (rule nth_equalityI)
  show "length (map (\<lambda>j. map (\<lambda>i. src ! j ! i) [0..<w]) [0..<h]) = length src"
    using assms by simp
next
  fix j assume "j < length (map (\<lambda>j. map (\<lambda>i. src ! j ! i) [0..<w]) [0..<h])"
  then have j: "j < h" by simp
  then have "length (src ! j) = w" using assms by (simp add: list_all_length)
  then have "map (\<lambda>i. src ! j ! i) [0..<w] = src ! j" using map_nth [of "src ! j"] by simp
  then show "map (\<lambda>j. map (\<lambda>i. src ! j ! i) [0..<w]) [0..<h] ! j = src ! j" using j by simp
qed

lemma rows_of_frame_mirrored:
  assumes "length src = h" and "list_all (\<lambda>row. length row = w) src"
  shows "map (\<lambda>j. map (\<lambda>i. src ! j ! (w - Suc i)) [0..<w]) [0..<h] = map rev src"
proof (rule nth_equalityI)
  show "length (map (\<lambda>j. map (\<lambda>i. src ! j ! (w - Suc i)) [0..<w]) [0..<h]) = length (map rev src)"
    using assms by simp
next
  fix j assume "j < length (map (\<lambda>j. map (\<lambda>i. src ! j ! (w - Suc i)) [0..<w]) [0..<h])"
  then have j: "j < h" by simp
  then have l: "length (src ! j) = w" using assms by (simp add: list_all_length)
  have "map (\<lambda>i. src ! j ! (w - Suc i)) [0..<w] = rev (src ! j)"
    by (rule nth_equalityI) (simp_all add: l rev_nth)
  then show "map (\<lambda>j. map (\<lambda>i. src ! j ! (w - Suc i)) [0..<w]) [0..<h] ! j = map rev src ! j"
    using j assms by simp
qed

lemma drawImage_unmirrored:
  assumes "length src = h" and "list_all (\<lambda>row. length row = w) src"
  shows "drawImage identity_ctm src w h canvas = src"
proof -
  have "drawImage identity_ctm src w h canvas = map (\<lambda>j. map (\<lambda>i. src ! j ! i) [0..<w]) [0..<h]"
    by (rule drawImage_placed) (auto simp: dest_pixel_def apply_ctm_def identity_ctm_def)
  then show ?thesis using rows_of_frame [OF assms] by simp
qed

lemma drawImage_mirrored:
  assumes "length src = h" and "list_all (\<lambda>row. length row = w) src"
  shows "drawImage (scale (- 1) 1 (translate (int w) 0 identity_ctm)) src w h canvas = map rev src"
proof -
  let ?m = "scale (- 1) 1 (translate (int w) 0 identity_ctm)"
  have d: "dest_pixel ?m (x, y) = (int w - int x - 1, int y)" for x y
    by (simp add: dest_pixel_def apply_ctm_def identity_ctm_def scale_def translate_def)
  have "drawImage ?m src w h canvas = map (\<lambda>j. map (\<lambda>i. src ! j ! (w - Suc i)) [0..<w]) [0..<h]"
  proof (rule drawImage_placed)
    fix i j assume "i < w" "j < h"
    then show "w - Suc i < w \<and> dest_pixel ?m (w - Suc i, j) = (int i, int j)"
      unfolding d by auto
  next
    fix x y i j assume "x < w" "y < h" "i < w" "j < h" "dest_pixel ?m (x, y) = (int i, int j)"
    then show "x = w - Suc i \<and> y = j" unfolding d by auto
  qed
  then show ?thesis using rows_of_frame_mirrored [OF assms] by simp
qed

text \<open>
  C5. A capture from a ready video whose frame has the size it reports hands
  \<^verbatim>\<open>onImageSelected\<close> the encoding of the drawn canvas: with the front camera
  (\<^verbatim>\<open>'user'\<close>) every row of the frame is reversed before encoding, with the rear
  camera (\<^verbatim>\<open>'environment'\<close>) the frame is drawn as it is.
\<close>

theorem C5_front_capture_mirrored:
  assumes "HAVE_METADATA \<le> readyState v" and "0 < videoWidth v" and "0 < videoHeight v"
    and "wellformed_frame v"
  shows "capturePhoto enc True (Some v) s =
           (stopCamera s,
            [ImageSelected (DataUrl (enc (if facingMode s = User then map rev (frame v)
                                          else frame v)))])"
proof -
  have f: "length (frame v) = videoHeight v" "list_all (\<lambda>row. length row = videoWidth v) (frame v)"
    using assms(4) by (simp_all add: wellformed_frame_def)
  show ?thesis
  proof (cases "facingMode s")
    case Environment
    then show ?thesis
      using assms(1-3) drawImage_unmirrored [OF f]
      by (simp add: capturePhoto_def Let_def)
  next
    case User
    then show ?thesis
      using assms(1-3) drawImage_mirrored [OF f]
      by (simp add: capturePhoto_def Let_def)
  qed
qed

theorem C5_front_capture_mirrored_witness:
  "capturePhoto sample_encoder True (Some (sample_video 4)) (live_camera User) =
     (stopCamera (live_camera User),
      [ImageSelected (DataUrl (sample_encoder [[3, 2, 1], [6, 5, 4]]))])
   \<and> capturePhoto sample_encoder True (Some (sample_video 4)) (live_camera Environment) =
     (stopCamera (live_camera Environment),
      [ImageSelected (DataUrl (sample_encoder [[1, 2, 3], [4, 5, 6]]))])"
proof -
  have a: "HAVE_METADATA \<le> readyState (sample_video 4)" "0 < videoWidth (sample_video 4)"
    "0 < videoHeight (sample_video 4)" "wellformed_frame (sample_video 4)"
    by (simp_all add: sample_video_def HAVE_METADATA_def wellformed_frame_def)
  have f: "frame (sample_video 4) = [[1, 2, 3], [4, 5, 6]]" by (simp add: sample_video_def)
  have m: "facingMode (live_camera User) = User" "facingMode (live_camera Environment) = Environment"
    by (simp_all add: live_camera_def)
  show ?thesis
    using C5_front_capture_mirrored [OF a, of sample_encoder "live_camera User"]
      C5_front_capture_mirrored [OF a, of sample_encoder "live_camera Environment"]
    by (simp add: f m)
qed

subsection \<open>The component in its surroundings\<close>

lemmas world_defs = run_def initial_world_def run_effect_def cleanup_def commit_def update_def
  set_state_def getUserMedia_resolved_def getUserMedia_rejected_def loadedmetadata_def
  initial_camera_state_def handleStartCameraClick_def stopCamera_def toggleCamera_def
  buttons_enabled_def video_of_def fresh_video_def remove_nth_def stop_tracks_def Let_def
  sample_track_def HAVE_METADATA_def

lemma update_same: "mounted w = Some c \<Longrightarrow> update (ident c) (\<lambda>s. st c) w = w"
  by (cases w) (simp add: update_def set_state_def commit_def)

lemma clientCalls_handleImageAnalysis:
  "clientCalls (handleImageAnalysis e d p) =
     clientCalls p @ [(case d of FileData f \<Rightarrow> readAsDataURL e f | DataUrl s \<Rightarrow> s,
                       tr e ''language'', location (app p))]"
  by (simp add: handleImageAnalysis_def Let_def split: sum.splits)

subsection \<open>Capture\<close>

lemma capturePhoto_not_ready:
  assumes "readyState v < HAVE_METADATA \<or> videoWidth v = 0 \<or> videoHeight v = 0"
  shows "capturePhoto enc hc (Some v) s =
           (s, [Alert (if readyState v < HAVE_METADATA
                       then ''Camera is not ready yet. Please wait a moment.''
                       else ''Camera is not ready yet, please wait a moment and try again.'')])"
  using assms by (auto simp: capturePhoto_def)

lemma capturePhoto_no_context:
  assumes "HAVE_METADATA \<le> readyState v" and "0 < videoWidth v" and "0 < videoHeight v"
  shows "capturePhoto enc False (Some v) s =
           (s, [Alert ''Failed to capture photo. Could not process image.''])"
  using assms by (simp add: capturePhoto_def Let_def)

lemma capture_click_alert_only:
  assumes "mounted w = Some c" and "buttons_enabled c" and "video_of w c = Some v"
    and "capturePhoto enc hc (Some v) (st c) = (st c, outs)"
  shows "step enc w (CaptureClick hc) = w\<lparr>calls := calls w @ outs\<rparr>"
proof -
  have "mounted (w\<lparr>calls := calls w @ outs\<rparr>) = Some c" using assms(1) by simp
  then have "update (ident c) (\<lambda>s. st c) (w\<lparr>calls := calls w @ outs\<rparr>) = w\<lparr>calls := calls w @ outs\<rparr>"
    by (rule update_same)
  then show ?thesis using assms by simp
qed

text \<open>
  C4. A capture requested while the video has not reported its metadata, or while its
  width or height is zero, ends with one alert and nothing else: the state is returned
  as it was, \<^verbatim>\<open>onImageSelected\<close> is not called (so the page, with its record of
  requests to the analysis client, stays as it is), and the press of the capture button
  leaves the whole camera (streams, effect runs, pending promises) untouched.
\<close>

theorem C4_capture_before_ready_rejected:
  assumes "readyState v < HAVE_METADATA \<or> videoWidth v = 0 \<or> videoHeight v = 0"
    and "m = (if readyState v < HAVE_METADATA
              then ''Camera is not ready yet. Please wait a moment.''
              else ''Camera is not ready yet, please wait a moment and try again.'')"
  shows "capturePhoto enc hc (Some v) s = (s, [Alert m])
         \<and> deliverAll e (snd (capturePhoto enc hc (Some v) s)) p = p
         \<and> (mounted w = Some c \<and> buttons_enabled c \<and> video_of w c = Some v \<longrightarrow>
              step enc w (CaptureClick hc) = w\<lparr>calls := calls w @ [Alert m]\<rparr>)"
proof -
  have c: "capturePhoto enc hc (Some v) s' = (s', [Alert m])" for s'
    unfolding assms(2) using assms(1) by (rule capturePhoto_not_ready)
  have "deliverAll e (snd (capturePhoto enc hc (Some v) s)) p = p"
    by (simp add: c deliverAll_def)
  moreover have "step enc w (CaptureClick hc) = w\<lparr>calls := calls w @ [Alert m]\<rparr>"
    if "mounted w = Some c \<and> buttons_enabled c \<and> video_of w c = Some v"
    using that c [of "st c"] by (intro capture_click_alert_only [where v = v]) simp_all
  ultimately show ?thesis using c [of s] by blast
qed

theorem C4_capture_before_ready_rejected_witness:
  "capturePhoto sample_encoder True (Some (sample_video 0)) (live_camera User)
     = (live_camera User, [Alert ''Camera is not ready yet. Please wait a moment.''])
   \<and> capturePhoto sample_encoder True (Some ((sample_video 1)\<lparr>videoWidth := 0\<rparr>)) (live_camera User)
     = (live_camera User, [Alert ''Camera is not ready yet, please wait a moment and try again.''])
   \<and> step sample_encoder live_world (CaptureClick True)
     = live_world\<lparr>calls := calls live_world @
         [Alert ''Camera is not ready yet. Please wait a moment.'']\<rparr>"
proof -
  let ?v = "\<lparr>readyState = 0, videoWidth = 0, videoHeight = 0, frame = [],
              srcObject = Some 0, onloadedmetadata = Some 1\<rparr>"
  let ?c = "\<lparr>ident = 0,
              st = \<lparr>showCamera = True, stream = Some 0, facingMode = Environment,
                     isCameraLoading = False, isTorchSupported = True, isTorchOn = False\<rparr>,
              videoRef = Some 0, effect_run = 1\<rparr>"
  let ?early = "''Camera is not ready yet. Please wait a moment.''"
  let ?late = "''Camera is not ready yet, please wait a moment and try again.''"
  have a: "readyState (sample_video 0) < HAVE_METADATA \<or> videoWidth (sample_video 0) = 0
           \<or> videoHeight (sample_video 0) = 0"
    "?early = (if readyState (sample_video 0) < HAVE_METADATA then ?early else ?late)"
    by (simp_all add: sample_video_def HAVE_METADATA_def)
  have z: "readyState ((sample_video 1)\<lparr>videoWidth := 0\<rparr>) < HAVE_METADATA
           \<or> videoWidth ((sample_video 1)\<lparr>videoWidth := 0\<rparr>) = 0
           \<or> videoHeight ((sample_video 1)\<lparr>videoWidth := 0\<rparr>) = 0"
    "?late = (if readyState ((sample_video 1)\<lparr>videoWidth := 0\<rparr>) < HAVE_METADATA
              then ?early else ?late)"
    by (simp_all add: sample_video_def HAVE_METADATA_def)
  have b: "readyState ?v < HAVE_METADATA \<or> videoWidth ?v = 0 \<or> videoHeight ?v = 0"
    "?early = (if readyState ?v < HAVE_METADATA then ?early else ?late)"
    by (simp_all add: HAVE_METADATA_def)
  have w: "mounted live_world = Some ?c \<and> buttons_enabled ?c \<and> video_of live_world ?c = Some ?v"
    unfolding live_world_def by (simp add: world_defs)
  have 1: "capturePhoto sample_encoder True (Some (sample_video 0)) (live_camera User)
     = (live_camera User, [Alert ?early])"
    using C4_capture_before_ready_rejected [OF a, of sample_encoder True "live_camera User"]
    by blast
  have 2: "capturePhoto sample_encoder True (Some ((sample_video 1)\<lparr>videoWidth := 0\<rparr>))
             (live_camera User) = (live_camera User, [Alert ?late])"
    using C4_capture_before_ready_rejected [OF z, of sample_encoder True "live_camera User"]
    by blast
  have 3: "step sample_encoder live_world (CaptureClick True)
     = live_world\<lparr>calls := calls live_world @ [Alert ?early]\<rparr>"
    using C4_capture_before_ready_rejected [OF b, of sample_encoder True _ _ _ live_world ?c] w
    by blast
  show ?thesis using 1 2 3 by blast
qed

text \<open>
  C10. A capture from a ready video for which \<^verbatim>\<open>getContext('2d')\<close> yields no
  context ends with one alert: the state is returned as it was (the camera stays
  shown), no image is handed on, and the press of the capture button leaves the streams
  and the effect runs untouched, so no cleanup runs and the stream stays live.
\<close>

theorem C10_capture_without_context:
  assumes "HAVE_METADATA \<le> readyState v" and "0 < videoWidth v" and "0 < videoHeight v"
  shows "capturePhoto enc False (Some v) s =
           (s, [Alert ''Failed to capture photo. Could not process image.''])
         \<and> (mounted w = Some c \<and> buttons_enabled c \<and> video_of w c = Some v \<longrightarrow>
              step enc w (CaptureClick False) =
                w\<lparr>calls := calls w @ [Alert ''Failed to capture photo. Could not process image.'']\<rparr>)"
proof -
  have c: "capturePhoto enc False (Some v) s' =
             (s', [Alert ''Failed to capture photo. Could not process image.''])" for s'
    using assms by (rule capturePhoto_no_context)
  have "step enc w (CaptureClick False) =
          w\<lparr>calls := calls w @ [Alert ''Failed to capture photo. Could not process image.'']\<rparr>"
    if "mounted w = Some c \<and> buttons_enabled c \<and> video_of w c = Some v"
    using that c [of "st c"] by (intro capture_click_alert_only [where v = v]) simp_all
  then show ?thesis using c [of s] by blast
qed

theorem C10_capture_without_context_witness:
  "capturePhoto sample_encoder False (Some (sample_video 4)) (live_camera User) =
     (live_camera User, [Alert ''Failed to capture photo. Could not process image.''])
   \<and> step sample_encoder ready_world (CaptureClick False) =
       ready_world\<lparr>calls := calls ready_world @
          [Alert ''Failed to capture photo. Could not process image.'']\<rparr>
   \<and> active_streams (step sample_encoder ready_world (CaptureClick False)) = 1"
proof -
  let ?v = "\<lparr>readyState = 1, videoWidth = 3, videoHeight = 2, frame = [[1, 2, 3], [4, 5, 6]],
              srcObject = Some 0, onloadedmetadata = Some 1\<rparr>"
  let ?c = "\<lparr>ident = 0,
              st = \<lparr>showCamera = True, stream = Some 0, facingMode = Environment,
                     isCameraLoading = False, isTorchSupported = True, isTorchOn = False\<rparr>,
              videoRef = Some 0, effect_run = 1\<rparr>"
  have a: "HAVE_METADATA \<le> readyState (sample_video 4)" "0 < videoWidth (sample_video 4)"
    "0 < videoHeight (sample_video 4)"
    by (simp_all add: sample_video_def HAVE_METADATA_def)
  have b: "HAVE_METADATA \<le> readyState ?v" "0 < videoWidth ?v" "0 < videoHeight ?v"
    by (simp_all add: HAVE_METADATA_def)
  have w: "mounted ready_world = Some ?c \<and> buttons_enabled ?c \<and> video_of ready_world ?c = Some ?v"
    unfolding ready_world_def by (simp add: world_defs)
  have s: "active_streams ready_world = 1"
    unfolding ready_world_def by (simp add: world_defs active_streams_def active_def)
  have 1: "capturePhoto sample_encoder False (Some (sample_video 4)) (live_camera User) =
     (live_camera User, [Alert ''Failed to capture photo. Could not process image.''])"
    using C10_capture_without_context [OF a, of sample_encoder "live_camera User"] by blast
  have 2: "step sample_encoder ready_world (CaptureClick False) =
       ready_world\<lparr>calls := calls ready_world @
          [Alert ''Failed to capture photo. Could not process image.'']\<rparr>"
    using C10_capture_without_context [OF b, of sample_encoder _ ready_world ?c] w by blast
  show ?thesis using 1 2 s by (simp add: active_streams_def)
qed

subsection \<open>The file input\<close>

text \<open>
  C6. \<^verbatim>\<open>handleFile\<close> calls \<^verbatim>\<open>onImageSelected\<close> exactly when the declared type of
  the file starts with \<^verbatim>\<open>image/\<close>. For such a file the callback receives the file,
  and the page records one request to the analysis client. For any other file there is
  one alert and nothing else: the page, with its record of requests, and the component
  stay as they are.
\<close>

theorem C6_file_type_gate:
  "((\<exists>d. ImageSelected d \<in> set (handleFile f)) \<longleftrightarrow> startsWith (type f) ''image/'')
   \<and> (startsWith (type f) ''image/'' \<longrightarrow>
         handleFile f = [ImageSelected (FileData f)]
         \<and> clientCalls (deliverAll e (handleFile f) p) =
             clientCalls p @ [(readAsDataURL e f, tr e ''language'', location (app p))])
   \<and> (\<not> startsWith (type f) ''image/'' \<longrightarrow>
         handleFile f = [Alert ''Please upload an image file'']
         \<and> deliverAll e (handleFile f) p = p
         \<and> (mounted w = Some c \<and> \<not> showCamera (st c) \<longrightarrow>
              step enc w (FileInput f) =
                w\<lparr>calls := calls w @ [Alert ''Please upload an image file'']\<rparr>))"
  by (simp add: handleFile_def deliverAll_def clientCalls_handleImageAnalysis)

theorem C6_file_type_gate_witness:
  "handleFile (sample_file ''image/png'') = [ImageSelected (FileData (sample_file ''image/png''))]
   \<and> clientCalls (deliverAll sample_env (handleFile (sample_file ''image/png'')) (sample_page None))
       = [(''data:image/png;base64,'', ''language'', None)]
   \<and> handleFile (sample_file ''text/plain'') = [Alert ''Please upload an image file'']
   \<and> deliverAll sample_env (handleFile (sample_file ''text/plain'')) (sample_page None)
       = sample_page None
   \<and> step sample_encoder idle_world (FileInput (sample_file ''text/plain'')) =
       idle_world\<lparr>calls := calls idle_world @ [Alert ''Please upload an image file'']\<rparr>"
proof -
  let ?c = "\<lparr>ident = 0, st = initial_camera_state, videoRef = None, effect_run = 0\<rparr>"
  have a: "startsWith (type (sample_file ''image/png'')) ''image/''"
    "\<not> startsWith (type (sample_file ''text/plain'')) ''image/''"
    by (simp_all add: startsWith_def sample_file_def)
  have w: "mounted idle_world = Some ?c \<and> \<not> showCamera (st ?c)"
    unfolding idle_world_def by (simp add: world_defs)
  have e: "readAsDataURL sample_env (sample_file ''image/png'') = ''data:image/png;base64,''"
    "tr sample_env ''language'' = ''language''" "location (app (sample_page None)) = None"
    "clientCalls (sample_page None) = []"
    by (simp_all add: sample_env_def sample_file_def sample_page_def)
  have 1: "handleFile (sample_file ''image/png'') = [ImageSelected (FileData (sample_file ''image/png''))]"
    and 2: "clientCalls (deliverAll sample_env (handleFile (sample_file ''image/png'')) (sample_page None))
       = clientCalls (sample_page None) @
           [(readAsDataURL sample_env (sample_file ''image/png''), tr sample_env ''language'',
             location (app (sample_page None)))]"
    using C6_file_type_gate [of "sample_file ''image/png''" sample_env "sample_page None"] a(1)
    by blast+
  have 3: "handleFile (sample_file ''text/plain'') = [Alert ''Please upload an image file'']"
    and 4: "deliverAll sample_env (handleFile (sample_file ''text/plain'')) (sample_page None)
       = sample_page None"
    and 5: "step sample_encoder idle_world (FileInput (sample_file ''text/plain'')) =
       idle_world\<lparr>calls := calls idle_world @ [Alert ''Please upload an image file'']\<rparr>"
    using C6_file_type_gate [of "sample_file ''text/plain''" sample_env "sample_page None"
        idle_world ?c sample_encoder] a(2) w
    by blast+
  show ?thesis using 1 2 3 4 5 unfolding e by (intro conjI) simp_all
qed

subsection \<open>The loading flag\<close>

lemma playSettled_idle: "\<not> isCameraLoading s \<Longrightarrow> playSettled s sig = s"
  by (cases sig) simp_all

lemma playSettled_success: "succeeded sig \<Longrightarrow> \<not> isCameraLoading (playSettled s sig)"
  by (cases sig) simp_all

lemma foldl_playSettled_idle: "\<not> isCameraLoading s \<Longrightarrow> foldl playSettled s sigs = s"
  by (induction sigs) (simp_all add: playSettled_idle)

lemma playSettled_loading:
  "isCameraLoading (playSettled s sig) = (isCameraLoading s \<and> sig = ImmediatePlay False)"
  by (cases sig) auto

lemma playSettled_flag_only:
  "playSettled s sig = s\<lparr>isCameraLoading := isCameraLoading (playSettled s sig)\<rparr>"
  by (cases sig) auto

lemma foldl_playSettled_loading:
  "isCameraLoading (foldl playSettled s sigs) =
     (isCameraLoading s \<and> (\<forall>x \<in> set sigs. x = ImmediatePlay False))"
proof (induction sigs arbitrary: s)
  case Nil
  show ?case by simp
next
  case (Cons a sigs)
  show ?case unfolding foldl_Cons Cons.IH playSettled_loading by auto
qed

text \<open>
  C8, as stated, fails: the loading state also ends with no successful playback. The
  attempt made from \<^verbatim>\<open>onloadedmetadata\<close> clears the flag in its \<^verbatim>\<open>catch\<close> as
  well (line 68). With the camera opened, the immediate attempt rejected and only the
  second attempt pending, the component is still loading; the rejection of the second
  attempt ends it.
\<close>

theorem C8_loading_ended_by_rejected_play_counterexample:
  "isCameraLoading ((live_camera User)\<lparr>isCameraLoading := True\<rparr>)
   \<and> \<not> succeeded (MetadataPlay False)
   \<and> \<not> isCameraLoading (playSettled ((live_camera User)\<lparr>isCameraLoading := True\<rparr>)
                          (MetadataPlay False))
   \<and> map_option (\<lambda>c. isCameraLoading (st c)) (mounted (run sample_encoder rejected_plays_trace))
       = Some True
   \<and> plays (run sample_encoder rejected_plays_trace) = [(0, True)]
   \<and> map_option (\<lambda>c. isCameraLoading (st c))
        (mounted (run sample_encoder (rejected_plays_trace @ [PlaySettled 0 False])))
       = Some False"
  by (simp add: live_camera_def rejected_plays_trace_def world_defs)

text \<open>
  C8, amended. The loading state lasts through rejected immediate attempts and ends at
  the first other signal: the immediate attempt resolving, or the attempt from
  \<^verbatim>\<open>onloadedmetadata\<close> settling either way. In particular a successful attempt of
  either kind ends it. A signal changes nothing but the loading flag, and one that
  arrives when the loading state has already ended leaves the state as it is, so the
  state after the first ending signal of a sequence is the final state.
\<close>

theorem C8_loading_ends_at_first_ending_signal:
  "(isCameraLoading (playSettled s sig) = (isCameraLoading s \<and> sig = ImmediatePlay False))
   \<and> playSettled s sig = s\<lparr>isCameraLoading := isCameraLoading (playSettled s sig)\<rparr>
   \<and> (succeeded sig \<longrightarrow> \<not> isCameraLoading (playSettled s sig))
   \<and> (\<not> isCameraLoading s \<longrightarrow> playSettled s sig = s)
   \<and> (isCameraLoading (foldl playSettled s sigs) =
        (isCameraLoading s \<and> (\<forall>x \<in> set sigs. x = ImmediatePlay False)))
   \<and> (sig \<noteq> ImmediatePlay False \<longrightarrow>
        foldl playSettled s (pre @ sig # post) = foldl playSettled s (pre @ [sig])
        \<and> \<not> isCameraLoading (foldl playSettled s (pre @ sig # post)))"
proof (intro conjI impI)
  show "isCameraLoading (playSettled s sig) = (isCameraLoading s \<and> sig = ImmediatePlay False)"
    by (rule playSettled_loading)
  show "playSettled s sig = s\<lparr>isCameraLoading := isCameraLoading (playSettled s sig)\<rparr>"
    by (rule playSettled_flag_only)
  show "\<not> isCameraLoading (playSettled s sig)" if "succeeded sig"
    using that by (rule playSettled_success)
  show "playSettled s sig = s" if "\<not> isCameraLoading s" using that by (rule playSettled_idle)
  show "isCameraLoading (foldl playSettled s sigs) =
        (isCameraLoading s \<and> (\<forall>x \<in> set sigs. x = ImmediatePlay False))"
    by (rule foldl_playSettled_loading)
  assume ne: "sig \<noteq> ImmediatePlay False"
  have i: "\<not> isCameraLoading (playSettled (foldl playSettled s pre) sig)"
    using ne by (simp add: playSettled_loading)
  have "foldl playSettled s (pre @ sig # post)
          = foldl playSettled (playSettled (foldl playSettled s pre) sig) post" by simp
  also have "\<dots> = playSettled (foldl playSettled s pre) sig"
    using i by (rule foldl_playSettled_idle)
  finally show e: "foldl playSettled s (pre @ sig # post) = foldl playSettled s (pre @ [sig])"
    by simp
  show "\<not> isCameraLoading (foldl playSettled s (pre @ sig # post))"
    using i unfolding e by simp
qed

theorem C8_loading_ends_at_first_ending_signal_witness:
  "isCameraLoading (playSettled ((live_camera User)\<lparr>isCameraLoading := True\<rparr>) (ImmediatePlay False))
   \<and> \<not> isCameraLoading (playSettled ((live_camera User)\<lparr>isCameraLoading := True\<rparr>) (ImmediatePlay True))
   \<and> \<not> isCameraLoading (playSettled ((live_camera User)\<lparr>isCameraLoading := True\<rparr>) (MetadataPlay False))
   \<and> playSettled (live_camera User) (MetadataPlay True) = live_camera User
   \<and> isCameraLoading (foldl playSettled ((live_camera User)\<lparr>isCameraLoading := True\<rparr>)
        [ImmediatePlay False, ImmediatePlay False])
   \<and> foldl playSettled ((live_camera User)\<lparr>isCameraLoading := True\<rparr>)
        [ImmediatePlay False, MetadataPlay False, ImmediatePlay True]
      = foldl playSettled ((live_camera User)\<lparr>isCameraLoading := True\<rparr>)
          [ImmediatePlay False, MetadataPlay False]"
proof (intro conjI)
  let ?s = "(live_camera User)\<lparr>isCameraLoading := True\<rparr>"
  have a: "isCameraLoading ?s" "\<not> isCameraLoading (live_camera User)"
    "succeeded (ImmediatePlay True)" "MetadataPlay False \<noteq> ImmediatePlay False"
    by (simp_all add: live_camera_def)
  note t = C8_loading_ends_at_first_ending_signal
  show "isCameraLoading (playSettled ?s (ImmediatePlay False))"
    using t [of ?s "ImmediatePlay False", THEN conjunct1] a(1) by simp
  show "\<not> isCameraLoading (playSettled ?s (ImmediatePlay True))"
    using t [of ?s "ImmediatePlay True", THEN conjunct2, THEN conjunct2, THEN conjunct1] a(3)
    by blast
  show "\<not> isCameraLoading (playSettled ?s (MetadataPlay False))"
    using t [of ?s "MetadataPlay False", THEN conjunct1] by simp
  show "playSettled (live_camera User) (MetadataPlay True) = live_camera User"
    using t [of "live_camera User" "MetadataPlay True",
             THEN conjunct2, THEN conjunct2, THEN conjunct2, THEN conjunct1] a(2)
    by blast
  show "isCameraLoading (foldl playSettled ?s [ImmediatePlay False, ImmediatePlay False])"
    using t [of ?s _ "[ImmediatePlay False, ImmediatePlay False]",
             THEN conjunct2, THEN conjunct2, THEN conjunct2, THEN conjunct2, THEN conjunct1] a(1)
    by simp
  show "foldl playSettled ?s [ImmediatePlay False, MetadataPlay False, ImmediatePlay True]
      = foldl playSettled ?s [ImmediatePlay False, MetadataPlay False]"
    using t [of ?s "MetadataPlay False" _ "[ImmediatePlay False]" "[ImmediatePlay True]",
             THEN conjunct2, THEN conjunct2, THEN conjunct2, THEN conjunct2, THEN conjunct2] a(4)
    by simp
qed

subsection \<open>The torch\<close>

text \<open>
  C9, as stated, fails in two places. With a live stream whose track reports the torch,
  a rejected \<^verbatim>\<open>applyConstraints\<close> flips neither the device setting nor the flag.
  With no stream in the state the toggle does nothing and raises no alert.
\<close>

theorem C9_torch_toggle_counterexample:
  "torch_capable [[sample_track (Some True)]] (live_camera Environment)
   \<and> toggleTorch False [[sample_track (Some True)]] (live_camera Environment) =
       ([[sample_track (Some True)]], live_camera Environment, [Alert ''Unable to toggle torch.''])
   \<and> toggleTorch True [[sample_track None]] ((live_camera Environment)\<lparr>stream := None\<rparr>) =
       ([[sample_track None]], (live_camera Environment)\<lparr>stream := None\<rparr>, [])"
  by (simp add: torch_capable_def toggleTorch_def tracks_of_def live_camera_def sample_track_def)

text \<open>
  C9, amended. The toggle changes anything only when the state holds a stream whose
  first video track reports the torch and \<^verbatim>\<open>applyConstraints\<close> resolves: then the
  device setting and the local flag are both flipped, without alert. When
  \<^verbatim>\<open>applyConstraints\<close> rejects, nothing changes and the user is told the torch could
  not be toggled. When the state holds a stream whose track does not report the torch,
  nothing changes and the user is told the torch is not supported. When the state holds
  no stream, nothing changes and there is no alert.
\<close>

theorem C9_torch_toggle:
  "(torch_capable ss s \<and> applyOk \<longrightarrow>
      (\<exists>k t rest. stream s = Some k \<and> tracks_of ss k = t # rest
         \<and> toggleTorch applyOk ss s =
             (ss[k := t\<lparr>torchSetting := \<not> torchSetting t\<rparr> # rest],
              s\<lparr>isTorchOn := \<not> isTorchOn s\<rparr>, [])))
   \<and> (torch_capable ss s \<and> \<not> applyOk \<longrightarrow>
        toggleTorch applyOk ss s = (ss, s, [Alert ''Unable to toggle torch.'']))
   \<and> (\<not> torch_capable ss s \<and> stream s \<noteq> None \<longrightarrow>
        toggleTorch applyOk ss s = (ss, s, [Alert ''Torch is not supported.'']))
   \<and> (stream s = None \<longrightarrow> toggleTorch applyOk ss s = (ss, s, []))"
  by (auto simp: torch_capable_def toggleTorch_def split: option.splits list.splits)

theorem C9_torch_toggle_witness:
  "toggleTorch True [[sample_track (Some True)]] (live_camera Environment) =
     ([[(sample_track (Some True))\<lparr>torchSetting := True\<rparr>]],
      (live_camera Environment)\<lparr>isTorchOn := True\<rparr>, [])
   \<and> toggleTorch False [[sample_track (Some True)]] (live_camera Environment) =
       ([[sample_track (Some True)]], live_camera Environment, [Alert ''Unable to toggle torch.''])
   \<and> toggleTorch True [[sample_track None]] (live_camera Environment) =
       ([[sample_track None]], live_camera Environment, [Alert ''Torch is not supported.''])
   \<and> toggleTorch True [[sample_track None]] ((live_camera Environment)\<lparr>stream := None\<rparr>) =
       ([[sample_track None]], (live_camera Environment)\<lparr>stream := None\<rparr>, [])"
proof -
  have a: "torch_capable [[sample_track (Some True)]] (live_camera Environment)"
    "\<not> torch_capable [[sample_track None]] (live_camera Environment)"
    "stream (live_camera Environment) = Some 0"
    "tracks_of [[sample_track (Some True)]] 0 = [sample_track (Some True)]"
    "\<not> torchSetting (sample_track (Some True))" "\<not> isTorchOn (live_camera Environment)"
    by (simp_all add: torch_capable_def tracks_of_def live_camera_def sample_track_def)
  show ?thesis
    using C9_torch_toggle [of "[[sample_track (Some True)]]" "live_camera Environment" True]
      C9_torch_toggle [of "[[sample_track (Some True)]]" "live_camera Environment" False]
      C9_torch_toggle [of "[[sample_track None]]" "live_camera Environment" True]
      C9_torch_toggle [of "[[sample_track None]]" "(live_camera Environment)\<lparr>stream := None\<rparr>" True]
      a
    by auto
qed

subsection \<open>One stream at a time\<close>

text \<open>
  C7 does not hold of the code. The cleanup of an effect run stops the run's
  \<^verbatim>\<open>currentStream\<close>, which is still unassigned while \<^verbatim>\<open>getUserMedia\<close> is
  pending; the continuation then assigns and shows a stream that no cleanup will ever
  stop. After the camera has been started, the component unmounted and the request
  resolved, no component is mounted and one stream is active; a second visit brings the
  number of active streams to two.
\<close>

theorem C7_pending_stream_leaks:
  "mounted (run sample_encoder leak_trace) = None
   \<and> requests (run sample_encoder leak_trace) = []
   \<and> active_streams (run sample_encoder leak_trace) = 1
   \<and> active_streams (run sample_encoder (leak_trace @ second_visit)) = 2"
  by (simp add: leak_trace_def second_visit_def world_defs active_streams_def active_def)


text \<open>
  The same leak without unmounting: a \<^verbatim>\<open>play()\<close> promise of the first stream that
  settles after a toggle clears the loading flag while the new request is pending, the
  buttons are enabled again, and a second toggle runs the cleanup of an effect run that
  has no stream yet. Both requests resolve, and stopping the camera afterwards leaves
  one stream active.
\<close>

lemma double_toggle_leaks:
  "active_streams (run sample_encoder double_toggle_trace) = 2
   \<and> active_streams (run sample_encoder (double_toggle_trace @ [PlaySettled 0 True, StopCameraClick])) = 1
   \<and> map_option (\<lambda>c. showCamera (st c))
        (mounted (run sample_encoder (double_toggle_trace @ [PlaySettled 0 True, StopCameraClick])))
       = Some False"
  by (simp add: double_toggle_trace_def world_defs active_streams_def active_def)

lemma active_stop_tracks_nth:
  "j < length ss \<Longrightarrow>
   active (stop_tracks k ss ! j) = (j \<noteq> k \<and> active (ss ! j))"
  by (auto simp: stop_tracks_def active_def list_ex_iff nth_list_update)

lemma length_stop_tracks: "length (stop_tracks k ss) = length ss"
  by (simp add: stop_tracks_def)

lemma streams_set_state: "streams (set_state i f w) = streams w"
  by (simp add: set_state_def split: option.splits)

lemma set_state_mounted:
  "mounted (set_state i f w) =
     map_option (\<lambda>c. if ident c = i then c\<lparr>st := f (st c)\<rparr> else c) (mounted w)"
  by (simp add: set_state_def split: option.splits)

lemma cleanup_streams:
  "k < length (closures w) \<Longrightarrow>
   streams (cleanup k w) =
     (case currentStream (closures w ! k) of
        None \<Rightarrow> streams w
      | Some cs \<Rightarrow> stop_tracks cs (streams w))"
  by (simp add: cleanup_def Let_def streams_set_state split: option.splits)

lemma cleanup_closures: "closures (cleanup k w) = closures w"
  by (simp add: cleanup_def Let_def set_state_def split: option.splits)

lemma cleanup_requests: "requests (cleanup k w) = requests w"
  by (simp add: cleanup_def Let_def set_state_def split: option.splits)

lemma cleanup_mounted:
  assumes "mounted w = Some c"
  shows "case mounted (cleanup k w) of
           None \<Rightarrow> False
         | Some c' \<Rightarrow> ident c' = ident c \<and> videoRef c' = videoRef c
                      \<and> effect_run c' = effect_run c
                      \<and> showCamera (st c') = showCamera (st c)
                      \<and> facingMode (st c') = facingMode (st c)"
  using assms
  by (cases "currentStream (closures w ! k)"; cases "videoElement (closures w ! k)")
     (simp_all add: cleanup_def Let_def set_state_mounted)

lemma run_effect_streams:
  assumes "mounted w = Some c" and "showCamera (st c)" and "videoRef c \<noteq> None"
  shows "streams (run_effect r w) =
           (case r of None \<Rightarrow> streams w | Some ps \<Rightarrow> stop_tracks ps (streams w))"
    and "requests (run_effect r w) = requests w @ [(length (closures w), facingMode (st c))]"
    and "length (closures (run_effect r w)) = Suc (length (closures w))"
  using assms by (auto simp: run_effect_def Let_def set_state_def split: option.splits)


lemma getUserMedia_resolved_streams:
  assumes "i < length (requests w)" and "fst (requests w ! i) < length (closures w)"
    and "ms \<noteq> []"
  shows "streams (getUserMedia_resolved i ms w) = streams w @ [ms]"
  using assms
  by (cases ms; cases "videoElement (closures w ! fst (requests w ! i))")
     (simp_all add: getUserMedia_resolved_def Let_def streams_set_state)

lemma toggle_step:
  assumes m: "mounted w = Some c" and en: "buttons_enabled c" and vr: "videoRef c \<noteq> None"
    and k: "effect_run c < length (closures w)"
    and cs: "currentStream (closures w ! effect_run c) = Some k"
  shows "streams (step enc w ToggleCameraClick) =
           (case stream (st c) of
              None \<Rightarrow> stop_tracks k (streams w)
            | Some r \<Rightarrow> stop_tracks r (stop_tracks k (streams w)))"
    and "requests (step enc w ToggleCameraClick) =
           requests w @ [(length (closures w),
                          if facingMode (st c) = Environment then User else Environment)]"
    and "length (closures (step enc w ToggleCameraClick)) = Suc (length (closures w))"
proof -
  let ?c0 = "c\<lparr>st := toggleCamera (st c)\<rparr>"
  let ?w0 = "w\<lparr>mounted := Some ?c0\<rparr>"
  let ?w1 = "cleanup (effect_run c) ?w0"
  have s0: "step enc w ToggleCameraClick = run_effect (stream (st c)) ?w1"
    using m en
    by (simp add: update_def set_state_def commit_def toggleCamera_def buttons_enabled_def)
  have "mounted ?w0 = Some ?c0" by simp
  from cleanup_mounted [OF this, of "effect_run c"]
  obtain c' where c': "mounted ?w1 = Some c'" "videoRef c' = videoRef c"
    "showCamera (st c') = showCamera (st c)"
    "facingMode (st c') = (if facingMode (st c) = Environment then User else Environment)"
    by (auto simp: toggleCamera_def split: option.splits)
  have sc: "showCamera (st c')" using c'(3) en by (simp add: buttons_enabled_def)
  have vr': "videoRef c' \<noteq> None" using c'(2) vr by simp
  have st: "streams ?w1 = stop_tracks k (streams w)"
    using cleanup_streams [of "effect_run c" ?w0] k cs by simp
  have cl: "closures ?w1 = closures w" by (simp add: cleanup_closures)
  have rq: "requests ?w1 = requests w" by (simp add: cleanup_requests)
  show "streams (step enc w ToggleCameraClick) =
           (case stream (st c) of
              None \<Rightarrow> stop_tracks k (streams w)
            | Some r \<Rightarrow> stop_tracks r (stop_tracks k (streams w)))"
    unfolding s0 run_effect_streams(1) [OF c'(1) sc vr'] st ..
  show "requests (step enc w ToggleCameraClick) =
           requests w @ [(length (closures w),
                          if facingMode (st c) = Environment then User else Environment)]"
    unfolding s0 run_effect_streams(2) [OF c'(1) sc vr'] rq cl c'(4) ..
  show "length (closures (step enc w ToggleCameraClick)) = Suc (length (closures w))"
    unfolding s0 run_effect_streams(3) [OF c'(1) sc vr'] cl ..
qed

text \<open>
  A toggle of the facing mode while the stream of the current effect run is open: every
  track of that stream is stopped in the same step in which the new stream is
  requested, no stream is active while the request is pending, and exactly one is
  active once it resolves.
\<close>

lemma toggle_releases_then_one_stream:
  assumes m: "mounted w = Some c" and en: "buttons_enabled c" and vr: "videoRef c \<noteq> None"
    and k: "effect_run c < length (closures w)"
    and cs: "currentStream (closures w ! effect_run c) = Some k"
    and only: "\<And>j. j < length (streams w) \<Longrightarrow> active (streams w ! j) \<Longrightarrow> j = k"
    and none: "requests w = []" and ms: "active ms"
  shows "active_streams (step enc w ToggleCameraClick) = 0"
    and "active_streams (step enc (step enc w ToggleCameraClick) (GetUserMediaResolved 0 ms)) = 1"
proof -
  let ?w' = "step enc w ToggleCameraClick"
  note t = toggle_step [OF m en vr k cs, of enc]
  have len: "length (streams ?w') = length (streams w)"
    unfolding t(1) by (simp add: length_stop_tracks split: option.splits)
  have dead: "\<not> active (streams ?w' ! j)" if "j < length (streams w)" for j
    using that only [of j] unfolding t(1)
    by (auto simp: active_stop_tracks_nth length_stop_tracks split: option.splits)
  have "\<not> active x" if "x \<in> set (streams ?w')" for x
    using that dead len by (auto simp: in_set_conv_nth)
  then have f: "filter active (streams ?w') = []" by (simp add: filter_empty_conv)
  then show "active_streams ?w' = 0" by (simp add: active_streams_def)
  have ne: "ms \<noteq> []" using ms by (auto simp: active_def)
  have r: "0 < length (requests ?w')" "fst (requests ?w' ! 0) < length (closures ?w')"
    unfolding t(2) t(3) none by simp_all
  have "streams (getUserMedia_resolved 0 ms ?w') = streams ?w' @ [ms]"
    using r ne by (rule getUserMedia_resolved_streams)
  then show "active_streams (step enc ?w' (GetUserMediaResolved 0 ms)) = 1"
    using f ms by (simp add: active_streams_def)
qed

end
